theory Spec2Isabelle
  imports Complex_Main "HOL-Library.Word"
begin

section \<open>The environment: file system, faults, entropy, observers\<close>

text \<open>
  The Python sources under \<open>backend/core\<close> and \<open>backend/utils\<close> act on the file system
  through \<open>pathlib\<close>, \<open>open\<close> and \<open>os\<close>. The embedding threads an explicit world through
  every call. A call returns a pair: the value or the raised exception, and the world it
  leaves behind (an exception keeps the side effects done before it).

  \<^item> The namespace is an association list from absolute, normalised paths to nodes.
    Symbolic links are followed at the last component, up to \<open>SYMLOOP_MAX\<close> times.
  \<^item> Every system call that can fail for reasons outside the program (disk error,
    quota, a device that goes away) consumes one entry of the fault schedule; \<open>True\<close>
    makes that call raise \<open>OSError\<close>. An empty schedule means no further faults.
  \<^item> \<open>secrets.token_bytes\<close> draws from an entropy source, a function from draw index
    to byte, with a cursor counting the bytes already handed out.
  \<^item> The raw write stream is recorded: each \<open>f.write\<close> appends the handle it was issued
    on, the offset and the data. The values handed to a progress callback are recorded too.
  \<^item> Removing the name of a regular file releases its blocks with the bytes they hold at
    that moment; \<open>released\<close> records them, in order. This is what stays on the medium
    after a deletion.
  \<^item> \<open>datetime.now()\<close> reads a clock that moves on with every reading.
  \<^item> The \<open>WipingEngine\<close> instance's \<open>_cancel_requested\<close> attribute is part of the world.
    Another thread or a signal handler may call \<open>emergency_stop()\<close> while a file is being
    wiped: the signal schedule has one entry per file processed by a batch loop, \<open>True\<close>
    meaning that the call happened while that file was processed.
  \<^item> Every directory on the way to a path can be searched. Under this assumption
    \<open>Path.exists()\<close>, \<open>is_file()\<close>, \<open>is_dir()\<close> and \<open>is_symlink()\<close> answer without raising
    (they swallow the errors of a missing or dangling path), so the \<open>except\<close> branches of
    \<open>validate_path\<close> and \<open>validate_permissions\<close>, which only an unsearchable directory
    could trigger, are not part of the model.
  \<^item> Python floats (progress percentages, durations) are modelled as exact reals.
  \<^item> Logger calls append to an in-memory audit list and decide nothing; they are left out.
\<close>

type_synonym path = string
type_synonym byte = "8 word"

text \<open>
  \<open>exn\<close> lists the exception classes derived from \<open>Exception\<close> that occur; a handler
  \<open>except Exception as e\<close> receives one of them. What a call can raise is wider: Python's
  \<open>KeyboardInterrupt\<close> and \<open>SystemExit\<close> derive from \<open>BaseException\<close> only and pass through
  every \<open>except Exception\<close>.
\<close>

datatype exn =
    FileNotFoundError | PermissionError | IsADirectoryError | NotADirectoryError
  | OSError | AttributeError | TypeError | ValueError | RecursionError | CallbackError

datatype raised = Exception exn | KeyboardInterrupt | SystemExit

datatype node =
    File bool bool "byte list"
  | Dir bool bool
  | Special bool bool
  | Symlink path

datatype json =
    JNull | JBool bool | JInt int | JReal real | JStr string
  | JArr "json list" | JObj "(string \<times> json) list"

record world =
  nodes :: "(path \<times> node) list"
  documents :: "(path \<times> json) list"
  faults :: "bool list"
  entropy :: "nat \<Rightarrow> byte"
  drawn :: nat
  opens :: nat
  writes :: "(nat \<times> nat \<times> byte list) list"
  progress :: "real list"
  clock :: nat
  cancel_requested :: bool
  signals :: "bool list"
  released :: "(path \<times> byte list) list"

record handle =
  hid :: nat
  hpath :: path
  hpos :: nat

type_synonym 'a io = "world \<Rightarrow> (raised + 'a) \<times> world"

definition io_return :: "'a \<Rightarrow> 'a io" where
  "io_return x W = (Inr x, W)"

definition io_raise :: "raised \<Rightarrow> 'a io" where
  "io_raise e W = (Inl e, W)"

definition io_bind :: "'a io \<Rightarrow> ('a \<Rightarrow> 'b io) \<Rightarrow> 'b io" where
  "io_bind m f W = (case m W of (Inl e, W1) \<Rightarrow> (Inl e, W1) | (Inr x, W1) \<Rightarrow> f x W1)"

text \<open>\<open>try: m except Exception as e: h e\<close>: only an \<open>Exception\<close> reaches the handler.\<close>

definition io_except :: "'a io \<Rightarrow> (exn \<Rightarrow> 'a io) \<Rightarrow> 'a io" where
  "io_except m h W =
     (case m W of
        (Inl (Exception e), W1) \<Rightarrow> h e W1
      | (Inl b, W1) \<Rightarrow> (Inl b, W1)
      | (Inr x, W1) \<Rightarrow> (Inr x, W1))"

definition tick :: "world \<Rightarrow> bool \<times> world" where
  "tick W = (case faults W of [] \<Rightarrow> (False, W) | b # bs \<Rightarrow> (b, W\<lparr>faults := bs\<rparr>))"

definition syscall :: "unit io" where
  "syscall W = (case tick W of (bad, W1) \<Rightarrow> if bad then (Inl (Exception OSError), W1) else (Inr (), W1))"

definition datetime_now :: "world \<Rightarrow> nat \<times> world" where
  "datetime_now W = (clock W, W\<lparr>clock := Suc (clock W)\<rparr>)"

subsection \<open>pathlib queries\<close>

definition SYMLOOP_MAX :: nat where
  "SYMLOOP_MAX = 40"

fun resolve :: "nat \<Rightarrow> (path \<times> node) list \<Rightarrow> path \<Rightarrow> (path \<times> node) option" where
  "resolve k ns p =
     (case map_of ns p of
        None \<Rightarrow> None
      | Some (Symlink t) \<Rightarrow> (if k = 0 then None else resolve (k - 1) ns t)
      | Some n \<Rightarrow> Some (p, n))"

declare resolve.simps [simp del]

definition stat_node :: "world \<Rightarrow> path \<Rightarrow> (path \<times> node) option" where
  "stat_node W p = resolve SYMLOOP_MAX (nodes W) p"

definition path_exists :: "world \<Rightarrow> path \<Rightarrow> bool" where
  "path_exists W p = (stat_node W p \<noteq> None)"

definition is_file :: "world \<Rightarrow> path \<Rightarrow> bool" where
  "is_file W p = (case stat_node W p of Some (q, File r w c) \<Rightarrow> True | _ \<Rightarrow> False)"

definition is_dir :: "world \<Rightarrow> path \<Rightarrow> bool" where
  "is_dir W p = (case stat_node W p of Some (q, Dir r w) \<Rightarrow> True | _ \<Rightarrow> False)"

definition is_symlink :: "world \<Rightarrow> path \<Rightarrow> bool" where
  "is_symlink W p = (case map_of (nodes W) p of Some (Symlink t) \<Rightarrow> True | _ \<Rightarrow> False)"

definition node_size :: "node \<Rightarrow> nat" where
  "node_size n = (case n of File r w c \<Rightarrow> length c | _ \<Rightarrow> 0)"

definition size_of :: "world \<Rightarrow> path \<Rightarrow> nat option" where
  "size_of W p = (case stat_node W p of Some (q, File r w c) \<Rightarrow> Some (length c) | _ \<Rightarrow> None)"

definition st_size :: "path \<Rightarrow> nat io" where
  "st_size p = io_bind syscall (\<lambda>u W.
     case stat_node W p of
       None \<Rightarrow> (Inl (Exception FileNotFoundError), W)
     | Some (q, n) \<Rightarrow> (Inr (node_size n), W))"

subsection \<open>File objects\<close>

definition open_rw :: "path \<Rightarrow> handle io" where
  "open_rw p = io_bind syscall (\<lambda>u W.
     case stat_node W p of
       None \<Rightarrow> (Inl (Exception FileNotFoundError), W)
     | Some (q, File r w c) \<Rightarrow>
         if r \<and> w then (Inr \<lparr>hid = opens W, hpath = q, hpos = 0\<rparr>, W\<lparr>opens := Suc (opens W)\<rparr>)
         else (Inl (Exception PermissionError), W)
     | Some (q, Dir r w) \<Rightarrow> (Inl (Exception IsADirectoryError), W)
     | Some (q, n) \<Rightarrow> (Inl (Exception OSError), W))"

definition open_rb :: "path \<Rightarrow> handle io" where
  "open_rb p = io_bind syscall (\<lambda>u W.
     case stat_node W p of
       None \<Rightarrow> (Inl (Exception FileNotFoundError), W)
     | Some (q, File r w c) \<Rightarrow>
         if r then (Inr \<lparr>hid = opens W, hpath = q, hpos = 0\<rparr>, W\<lparr>opens := Suc (opens W)\<rparr>)
         else (Inl (Exception PermissionError), W)
     | Some (q, Dir r w) \<Rightarrow> (Inl (Exception IsADirectoryError), W)
     | Some (q, n) \<Rightarrow> (Inl (Exception OSError), W))"

definition overwrite_at :: "nat \<Rightarrow> byte list \<Rightarrow> byte list \<Rightarrow> byte list" where
  "overwrite_at off bs old =
     take off old @ replicate (off - length old) 0 @ bs @ drop (off + length bs) old"

definition put_bytes :: "path \<Rightarrow> nat \<Rightarrow> byte list \<Rightarrow> (path \<times> node) list \<Rightarrow> (path \<times> node) list" where
  "put_bytes p off bs ns =
     map (\<lambda>(q, n). case n of
            File r w c \<Rightarrow> if q = p then (q, File r w (overwrite_at off bs c)) else (q, n)
          | _ \<Rightarrow> (q, n)) ns"

definition file_write :: "handle \<Rightarrow> byte list \<Rightarrow> handle io" where
  "file_write f bs = io_bind syscall (\<lambda>u W.
     (Inr (f\<lparr>hpos := hpos f + length bs\<rparr>),
      W\<lparr>nodes := put_bytes (hpath f) (hpos f) bs (nodes W),
        writes := writes W @ [(hid f, hpos f, bs)]\<rparr>))"

definition content_of :: "world \<Rightarrow> path \<Rightarrow> byte list" where
  "content_of W p = (case map_of (nodes W) p of Some (File r w c) \<Rightarrow> c | _ \<Rightarrow> [])"

definition file_read :: "handle \<Rightarrow> nat \<Rightarrow> (byte list \<times> handle) io" where
  "file_read f n = io_bind syscall (\<lambda>u W.
     let bs = take n (drop (hpos f) (content_of W (hpath f)))
     in (Inr (bs, f\<lparr>hpos := hpos f + length bs\<rparr>), W))"

definition seek_set :: "handle \<Rightarrow> nat \<Rightarrow> handle io" where
  "seek_set f off = io_return (f\<lparr>hpos := off\<rparr>)"

definition seek_end :: "handle \<Rightarrow> nat \<Rightarrow> handle io" where
  "seek_end f back W =
     (let n = length (content_of W (hpath f))
      in if back \<le> n then (Inr (f\<lparr>hpos := n - back\<rparr>), W) else (Inl (Exception OSError), W))"

definition flush :: "handle \<Rightarrow> unit io" where
  "flush f = syscall"

definition fsync :: "handle \<Rightarrow> unit io" where
  "fsync f = syscall"

definition unlink :: "path \<Rightarrow> unit io" where
  "unlink p = io_bind syscall (\<lambda>u W.
     case map_of (nodes W) p of
       None \<Rightarrow> (Inl (Exception FileNotFoundError), W)
     | Some (Dir r w) \<Rightarrow> (Inl (Exception IsADirectoryError), W)
     | Some (File r w c) \<Rightarrow>
         (Inr (), W\<lparr>nodes := filter (\<lambda>(q, n). q \<noteq> p) (nodes W),
                      released := released W @ [(p, c)]\<rparr>)
     | Some n \<Rightarrow> (Inr (), W\<lparr>nodes := filter (\<lambda>(q, n). q \<noteq> p) (nodes W)\<rparr>))"

definition token_bytes :: "nat \<Rightarrow> byte list io" where
  "token_bytes n W = (Inr (map (entropy W) [drawn W ..< drawn W + n]), W\<lparr>drawn := drawn W + n\<rparr>)"

subsection \<open>Progress callbacks\<close>

text \<open>
  A progress callback is the caller's code. The model covers observers: a callback
  records the value it is given and may then raise. \<open>Some react\<close> raises \<open>b\<close> on the
  values \<open>v\<close> with \<open>react v = Some b\<close>, which may be an \<open>Exception\<close> or, as when the user
  presses Ctrl-C while the callback prints, a \<open>KeyboardInterrupt\<close>; \<open>None\<close> is Python's
  \<open>progress_callback=None\<close>.
\<close>

type_synonym callback = "(real \<Rightarrow> raised option) option"

definition call_progress :: "callback \<Rightarrow> real \<Rightarrow> unit io" where
  "call_progress cb v W =
     (case cb of
        None \<Rightarrow> (Inr (), W)
      | Some react \<Rightarrow>
          (case react v of
             Some b \<Rightarrow> (Inl b, W\<lparr>progress := progress W @ [v]\<rparr>)
           | None \<Rightarrow> (Inr (), W\<lparr>progress := progress W @ [v]\<rparr>)))"

section \<open>NISTAlgorithms (core/nist\_algorithms.py)\<close>

definition BLOCK_SIZE :: nat where
  "BLOCK_SIZE = 65536"

subsection \<open>clear\_method\<close>

function clear_loop :: "callback \<Rightarrow> nat \<Rightarrow> handle \<Rightarrow> nat \<Rightarrow> handle io" where
  "clear_loop cb file_size f bytes_written W =
     (if bytes_written < file_size then
        (let chunk_size = min BLOCK_SIZE (file_size - bytes_written) in
         case file_write f (replicate chunk_size 0) W of
           (Inl e, W1) \<Rightarrow> (Inl e, W1)
         | (Inr f1, W1) \<Rightarrow>
             (case call_progress cb
                     (real (bytes_written + chunk_size) / real file_size * 100) W1 of
                (Inl e, W2) \<Rightarrow> (Inl e, W2)
              | (Inr u, W2) \<Rightarrow> clear_loop cb file_size f1 (bytes_written + chunk_size) W2))
      else (Inr f, W))"
  by pat_completeness auto
termination
  by (relation "measure (\<lambda>(cb, file_size, f, bytes_written, W). file_size - bytes_written)")
     (auto simp: BLOCK_SIZE_def)

declare clear_loop.simps [simp del]

definition clear_body :: "path \<Rightarrow> callback \<Rightarrow> bool io" where
  "clear_body file_path cb W =
     (if \<not> path_exists W file_path then (Inr False, W)
      else
        io_bind (st_size file_path) (\<lambda>file_size.
        io_bind (open_rw file_path) (\<lambda>f.
        io_bind (clear_loop cb file_size f 0) (\<lambda>f1.
        io_bind (flush f1) (\<lambda>u.
        io_bind (fsync f1) (\<lambda>u.
        io_bind (unlink file_path) (\<lambda>u.
        io_return True)))))) W)"

definition clear_method :: "path \<Rightarrow> callback \<Rightarrow> bool io" where
  "clear_method file_path cb = io_except (clear_body file_path cb) (\<lambda>e. io_return False)"

subsection \<open>purge\_method\<close>

text \<open>
  The pattern of a pass is \<open>b'\x00'\<close>, \<open>b'\xFF'\<close> or \<open>None\<close> (random). \<open>passes\<close> is a
  natural number: Python's \<open>range(1, passes + 1)\<close> is empty for every \<open>passes\<close> below 1.
\<close>

definition pattern_of :: "nat \<Rightarrow> byte list option" where
  "pattern_of pass_num =
     (if pass_num = 1 then Some [0x00] else if pass_num = 2 then Some [0xFF] else None)"

definition gen_data :: "byte list option \<Rightarrow> nat \<Rightarrow> byte list io" where
  "gen_data pattern chunk_size =
     (case pattern of
        None \<Rightarrow> token_bytes chunk_size
      | Some pat \<Rightarrow>
          if pat \<noteq> [] then io_return (concat (replicate chunk_size pat))
          else token_bytes chunk_size)"

function overwrite_loop ::
  "callback \<Rightarrow> nat \<Rightarrow> byte list option \<Rightarrow> nat \<Rightarrow> nat \<Rightarrow> handle \<Rightarrow> nat \<Rightarrow> handle io" where
  "overwrite_loop cb file_size pattern pass_num total_passes f bytes_written W =
     (if bytes_written < file_size then
        (let chunk_size = min BLOCK_SIZE (file_size - bytes_written) in
         case gen_data pattern chunk_size W of
           (Inl e, W0) \<Rightarrow> (Inl e, W0)
         | (Inr bs, W0) \<Rightarrow>
         (case file_write f bs W0 of
           (Inl e, W1) \<Rightarrow> (Inl e, W1)
         | (Inr f1, W1) \<Rightarrow>
             (case call_progress cb
                     ((real (pass_num - 1) / real total_passes
                       + (real (bytes_written + chunk_size) / real file_size) / real total_passes)
                      * 100) W1 of
                (Inl e, W2) \<Rightarrow> (Inl e, W2)
              | (Inr u, W2) \<Rightarrow>
                  overwrite_loop cb file_size pattern pass_num total_passes f1
                    (bytes_written + chunk_size) W2)))
      else (Inr f, W))"
  by pat_completeness auto
termination
  by (relation "measure (\<lambda>(cb, file_size, pattern, pass_num, total_passes, f, bytes_written, W).
        file_size - bytes_written)")
     (auto simp: BLOCK_SIZE_def)

declare overwrite_loop.simps [simp del]

definition overwrite_pass ::
  "path \<Rightarrow> nat \<Rightarrow> byte list option \<Rightarrow> nat \<Rightarrow> nat \<Rightarrow> callback \<Rightarrow> bool io" where
  "overwrite_pass file_path file_size pattern pass_num total_passes cb =
     io_except
       (io_bind (open_rw file_path) (\<lambda>f.
        io_bind (overwrite_loop cb file_size pattern pass_num total_passes f 0) (\<lambda>f1.
        io_bind (flush f1) (\<lambda>u.
        io_bind (fsync f1) (\<lambda>u.
        io_return True)))))
       (\<lambda>e. io_return False)"

definition verify_overwrite :: "path \<Rightarrow> bool io" where
  "verify_overwrite file_path =
     io_except
       (io_bind (st_size file_path) (\<lambda>file_size.
        if file_size = 0 then io_return True
        else
          io_bind (open_rb file_path) (\<lambda>f.
          io_bind (file_read f (min 1024 file_size)) (\<lambda>(first_block, f1).
          io_bind
            (if file_size > 2048 then
               io_bind (seek_set f1 (file_size div 2)) (\<lambda>f2.
               io_bind (file_read f2 (min 1024 (file_size div 2))) (\<lambda>(middle_block, f3).
               io_return ((if first_block \<noteq> [] then 1 else 0)
                          + (if middle_block \<noteq> [] then 1 else 0), f3)))
             else io_return ((if first_block \<noteq> [] then 1 else (0::nat)), f1))
            (\<lambda>(samples_verified, f4).
          io_bind
            (if file_size > 1024 then
               io_bind (seek_end f4 1024) (\<lambda>f5.
               io_bind (file_read f5 1024) (\<lambda>(last_block, f6).
               io_return (samples_verified + (if last_block \<noteq> [] then 1 else 0))))
             else io_return samples_verified)
            (\<lambda>samples_verified. io_return (samples_verified > 0)))))))
       (\<lambda>e. io_return False)"

text \<open>
  The \<open>for pass_num in range(1, passes + 1)\<close> loop. The result \<open>False\<close> is the early
  \<open>return False\<close> after a failed pass, \<open>True\<close> is the loop running to its end.
\<close>

function purge_passes :: "path \<Rightarrow> nat \<Rightarrow> callback \<Rightarrow> nat \<Rightarrow> nat \<Rightarrow> bool io" where
  "purge_passes file_path file_size cb passes pass_num W =
     (if pass_num \<le> passes then
        (case overwrite_pass file_path file_size (pattern_of pass_num) pass_num passes cb W of
           (Inl e, W1) \<Rightarrow> (Inl e, W1)
         | (Inr ok, W1) \<Rightarrow>
             if \<not> ok then (Inr False, W1)
             else purge_passes file_path file_size cb passes (Suc pass_num) W1)
      else (Inr True, W))"
  by pat_completeness auto
termination
  by (relation "measure (\<lambda>(file_path, file_size, cb, passes, pass_num, W). Suc passes - pass_num)")
     auto

declare purge_passes.simps [simp del]

definition purge_body :: "path \<Rightarrow> nat \<Rightarrow> callback \<Rightarrow> bool io" where
  "purge_body file_path passes cb W =
     (if \<not> path_exists W file_path then (Inr False, W)
      else
        io_bind (st_size file_path) (\<lambda>file_size.
        io_bind (purge_passes file_path file_size cb passes 1) (\<lambda>completed.
        if \<not> completed then io_return False
        else
          io_bind (verify_overwrite file_path) (\<lambda>verified.
          io_bind (unlink file_path) (\<lambda>u.
          io_return True)))) W)"

definition purge_method :: "path \<Rightarrow> nat \<Rightarrow> callback \<Rightarrow> bool io" where
  "purge_method file_path passes cb =
     io_except (purge_body file_path passes cb) (\<lambda>e. io_return False)"

definition verify_wipe :: "world \<Rightarrow> path \<Rightarrow> bool" where
  "verify_wipe W file_path = (\<not> path_exists W file_path)"

section \<open>WipingEngine (core/wiping\_engine.py)\<close>

text \<open>
  The result dictionaries have fixed keys and become records. \<open>str(e)\<close> of an exception
  is its class name. A key that is only set on some paths (\<open>verified\<close>) is an option.
\<close>

definition exn_str :: "exn \<Rightarrow> string" where
  "exn_str e =
     (case e of
        FileNotFoundError \<Rightarrow> ''FileNotFoundError'' | PermissionError \<Rightarrow> ''PermissionError''
      | IsADirectoryError \<Rightarrow> ''IsADirectoryError'' | NotADirectoryError \<Rightarrow> ''NotADirectoryError''
      | OSError \<Rightarrow> ''OSError'' | AttributeError \<Rightarrow> ''AttributeError''
      | TypeError \<Rightarrow> ''TypeError'' | ValueError \<Rightarrow> ''ValueError''
      | RecursionError \<Rightarrow> ''RecursionError'' | CallbackError \<Rightarrow> ''CallbackError'')"

definition is_OSError :: "exn \<Rightarrow> bool" where
  "is_OSError e =
     (case e of
        FileNotFoundError \<Rightarrow> True | PermissionError \<Rightarrow> True | IsADirectoryError \<Rightarrow> True
      | NotADirectoryError \<Rightarrow> True | OSError \<Rightarrow> True | _ \<Rightarrow> False)"

record wipe_result =
  f_file :: path
  f_method :: string
  f_success :: bool
  f_error :: "string option"
  f_verified :: "bool option"
  f_start_time :: nat
  f_end_time :: "nat option"
  f_duration :: "nat option"

datatype folder_error = Message string | FileError path "string option"

record folder_result =
  d_folder :: path
  d_method :: string
  d_recursive :: bool
  d_total_files :: nat
  d_successful :: nat
  d_failed :: nat
  d_errors :: "folder_error list"
  d_start_time :: nat
  d_end_time :: "nat option"
  d_duration :: "nat option"

datatype file_entry = Result wipe_result | ErrorOnly string

record selection_result =
  s_method :: string
  s_total_files :: nat
  s_successful :: nat
  s_failed :: nat
  s_skipped :: nat
  s_files :: "file_entry list"
  s_start_time :: nat
  s_end_time :: "nat option"
  s_duration :: "nat option"

definition emergency_stop :: "world \<Rightarrow> world" where
  "emergency_stop W = W\<lparr>cancel_requested := True\<rparr>"

definition reset_cancel :: "world \<Rightarrow> world" where
  "reset_cancel W = W\<lparr>cancel_requested := False\<rparr>"

definition poll_signal :: "world \<Rightarrow> world" where
  "poll_signal W =
     (case signals W of
        [] \<Rightarrow> W
      | s # ss \<Rightarrow> if s then emergency_stop (W\<lparr>signals := ss\<rparr>) else W\<lparr>signals := ss\<rparr>)"

subsection \<open>wipe\_file\<close>

definition wipe_file_body :: "wipe_result \<Rightarrow> path \<Rightarrow> string \<Rightarrow> callback \<Rightarrow> wipe_result io" where
  "wipe_file_body result file_path method cb W =
     (if \<not> path_exists W file_path then
        (Inr (result\<lparr>f_error := Some ''File does not exist''\<rparr>), W)
      else if cancel_requested W then
        (Inr (result\<lparr>f_error := Some ''Operation cancelled''\<rparr>), W)
      else
        io_bind (st_size file_path) (\<lambda>file_size.
        if method = ''clear'' \<or> method = ''purge'' then
          io_bind (if method = ''clear'' then clear_method file_path cb
                   else purge_method file_path 7 cb) (\<lambda>success W1.
          if success then
            (Inr (result\<lparr>f_success := success, f_verified := Some (verify_wipe W1 file_path)\<rparr>), W1)
          else (Inr (result\<lparr>f_success := success\<rparr>), W1))
        else io_return (result\<lparr>f_error := Some (''Unknown method: '' @ method)\<rparr>)) W)"

definition wipe_file :: "path \<Rightarrow> string \<Rightarrow> callback \<Rightarrow> wipe_result io" where
  "wipe_file file_path method cb W =
     (case datetime_now W of (start_time, W0) \<Rightarrow>
      let result = \<lparr>f_file = file_path, f_method = method, f_success = False, f_error = None,
                    f_verified = None, f_start_time = start_time, f_end_time = None,
                    f_duration = None\<rparr>
      in case io_except (wipe_file_body result file_path method cb)
                     (\<lambda>e. io_return (result\<lparr>f_error := Some (exn_str e)\<rparr>)) W0 of
           (r, W1) \<Rightarrow>
             (case datetime_now W1 of (end_time, W2) \<Rightarrow>
                (case r of
                   Inl e \<Rightarrow> (Inl e, W2)
                 | Inr res \<Rightarrow>
                     (Inr (res\<lparr>f_end_time := Some end_time,
                               f_duration := Some (end_time - start_time)\<rparr>), W2))))"

subsection \<open>Directory enumeration\<close>

definition is_under :: "path \<Rightarrow> path \<Rightarrow> bool" where
  "is_under folder p \<longleftrightarrow>
     length folder + 1 < length p \<and> take (length folder + 1) p = folder @ ''/''"

definition is_child :: "path \<Rightarrow> path \<Rightarrow> bool" where
  "is_child folder p \<longleftrightarrow>
     is_under folder p \<and> CHR ''/'' \<notin> set (drop (length folder + 1) p)"

definition rglob :: "path \<Rightarrow> path list io" where
  "rglob folder = io_bind syscall (\<lambda>u W.
     (Inr (filter (is_under folder) (map fst (nodes W))), W))"

definition iterdir :: "path \<Rightarrow> path list io" where
  "iterdir folder = io_bind syscall (\<lambda>u W.
     if is_dir W folder then (Inr (filter (is_child folder) (map fst (nodes W))), W)
     else if path_exists W folder then (Inl (Exception NotADirectoryError), W)
     else (Inl (Exception FileNotFoundError), W))"

definition rmdir :: "path \<Rightarrow> unit io" where
  "rmdir p = io_bind syscall (\<lambda>u W.
     case map_of (nodes W) p of
       None \<Rightarrow> (Inl (Exception FileNotFoundError), W)
     | Some (Dir r w) \<Rightarrow>
         if filter (is_under p) (map fst (nodes W)) = []
         then (Inr (), W\<lparr>nodes := filter (\<lambda>(q, n). q \<noteq> p) (nodes W)\<rparr>)
         else (Inl (Exception OSError), W)
     | Some n \<Rightarrow> (Inl (Exception NotADirectoryError), W))"

text \<open>
  \<open>_remove_empty_dirs\<close> recurses through the tree. Python bounds the recursion depth and
  raises \<open>RecursionError\<close> beyond it; the depth left is the first argument.
\<close>

definition RECURSION_LIMIT :: nat where
  "RECURSION_LIMIT = 1000"

fun remove_empty_dirs :: "nat \<Rightarrow> path \<Rightarrow> unit io"
  and remove_empty_items :: "nat \<Rightarrow> path list \<Rightarrow> unit io" where
  "remove_empty_dirs 0 folder W = (Inl (Exception RecursionError), W)"
| "remove_empty_dirs (Suc depth) folder W =
     (case iterdir folder W of
        (Inl e, W1) \<Rightarrow> (Inl e, W1)
      | (Inr items, W1) \<Rightarrow> remove_empty_items depth items W1)"
| "remove_empty_items depth [] W = (Inr (), W)"
| "remove_empty_items depth (item # items) W =
     (if is_dir W item then
        (case remove_empty_dirs depth item W of
           (Inl e, W1) \<Rightarrow> (Inl e, W1)
         | (Inr u, W1) \<Rightarrow>
             (case io_except (rmdir item)
                     (\<lambda>e. if is_OSError e then io_return () else io_raise (Exception e)) W1 of
                (Inl e, W2) \<Rightarrow> (Inl e, W2)
              | (Inr u, W2) \<Rightarrow> remove_empty_items depth items W2))
      else remove_empty_items depth items W)"

subsection \<open>wipe\_folder\<close>

fun folder_loop ::
  "string \<Rightarrow> callback \<Rightarrow> nat \<Rightarrow> nat \<Rightarrow> path list \<Rightarrow> folder_result \<Rightarrow> world
     \<Rightarrow> (raised option \<times> folder_result) \<times> world" where
  "folder_loop method cb n idx [] result W = ((None, result), W)"
| "folder_loop method cb n idx (file_path # rest) result W =
     (if cancel_requested W then
        ((None, result\<lparr>d_errors := d_errors result @ [Message ''Operation cancelled by user'']\<rparr>), W)
      else
        case call_progress cb (real idx / real n * 100) W of
          (Inl e, W1) \<Rightarrow> ((Some e, result), W1)
        | (Inr u, W1) \<Rightarrow>
            (case wipe_file file_path method None W1 of
               (Inl e, W2) \<Rightarrow> ((Some e, result), W2)
             | (Inr file_result, W2) \<Rightarrow>
                 folder_loop method cb n (Suc idx) rest
                   (if f_success file_result then
                      result\<lparr>d_successful := d_successful result + 1\<rparr>
                    else
                      result\<lparr>d_failed := d_failed result + 1,
                             d_errors := d_errors result
                                         @ [FileError file_path (f_error file_result)]\<rparr>)
                   (poll_signal W2)))"

definition wipe_folder_body ::
  "path \<Rightarrow> string \<Rightarrow> bool \<Rightarrow> callback \<Rightarrow> folder_result \<Rightarrow> world
     \<Rightarrow> (raised option \<times> folder_result) \<times> world" where
  "wipe_folder_body folder_path method recursive cb result W =
     (if \<not> path_exists W folder_path \<or> \<not> is_dir W folder_path then
        ((None, result\<lparr>d_errors := d_errors result
                          @ [Message ''Folder does not exist or is not a directory'']\<rparr>), W)
      else
        case (if recursive then rglob folder_path else iterdir folder_path) W of
          (Inl e, W1) \<Rightarrow> ((Some e, result), W1)
        | (Inr items, W1) \<Rightarrow>
            (let files_to_wipe = filter (is_file W1) items in
             case folder_loop method cb (length files_to_wipe) 0 files_to_wipe
                    (result\<lparr>d_total_files := length files_to_wipe\<rparr>) W1 of
               ((Some e, result2), W2) \<Rightarrow> ((Some e, result2), W2)
             | ((None, result2), W2) \<Rightarrow>
                 if recursive then
                   (case io_except (remove_empty_dirs RECURSION_LIMIT folder_path)
                           (\<lambda>e. io_return ()) W2 of
                      (Inl b, W3) \<Rightarrow> ((Some b, result2), W3)
                    | (Inr u, W3) \<Rightarrow> ((None, result2), W3))
                 else ((None, result2), W2)))"

definition wipe_folder :: "path \<Rightarrow> string \<Rightarrow> bool \<Rightarrow> callback \<Rightarrow> folder_result io" where
  "wipe_folder folder_path method recursive cb W =
     (case datetime_now W of (start_time, W0) \<Rightarrow>
      let result = \<lparr>d_folder = folder_path, d_method = method, d_recursive = recursive,
                    d_total_files = 0, d_successful = 0, d_failed = 0, d_errors = [],
                    d_start_time = start_time, d_end_time = None, d_duration = None\<rparr>
      in case wipe_folder_body folder_path method recursive cb result W0 of
           ((ex, result1), W1) \<Rightarrow>
             (case datetime_now W1 of (end_time, W2) \<Rightarrow>
                (case ex of
                   None \<Rightarrow>
                     (Inr (result1\<lparr>d_end_time := Some end_time,
                                   d_duration := Some (end_time - start_time)\<rparr>), W2)
                 | Some (Exception e) \<Rightarrow>
                     (Inr (result1\<lparr>d_errors := d_errors result1 @ [Message (exn_str e)],
                                   d_end_time := Some end_time,
                                   d_duration := Some (end_time - start_time)\<rparr>), W2)
                 | Some b \<Rightarrow> (Inl b, W2))))"

subsection \<open>wipe\_selection\<close>

fun selection_loop ::
  "string \<Rightarrow> callback \<Rightarrow> nat \<Rightarrow> nat \<Rightarrow> path list \<Rightarrow> selection_result \<Rightarrow> world
     \<Rightarrow> (raised option \<times> selection_result) \<times> world" where
  "selection_loop method cb n idx [] result W = ((None, result), W)"
| "selection_loop method cb n idx (file_path # rest) result W =
     (if cancel_requested W then ((None, result\<lparr>s_skipped := n - idx\<rparr>), W)
      else
        case call_progress cb (real idx / real n * 100) W of
          (Inl e, W1) \<Rightarrow> ((Some e, result), W1)
        | (Inr u, W1) \<Rightarrow>
            (case wipe_file file_path method None W1 of
               (Inl e, W2) \<Rightarrow> ((Some e, result), W2)
             | (Inr file_result, W2) \<Rightarrow>
                 selection_loop method cb n (Suc idx) rest
                   (if f_success file_result then
                      result\<lparr>s_files := s_files result @ [Result file_result],
                             s_successful := s_successful result + 1\<rparr>
                    else
                      result\<lparr>s_files := s_files result @ [Result file_result],
                             s_failed := s_failed result + 1\<rparr>)
                   (poll_signal W2)))"

text \<open>
  \<open>wipe_selection\<close> builds its result dictionary, with \<open>len(file_list)\<close>, before it
  enters its \<open>try\<close> block. The annotation asks for a list, but Python does not enforce
  it: for an argument without \<open>len()\<close>, such as \<open>None\<close> or a generator, that expression raises
  \<open>TypeError\<close> and no handler is in place yet.
\<close>

datatype file_list_arg = FileList "path list" | NoLen

definition wipe_selection :: "file_list_arg \<Rightarrow> string \<Rightarrow> callback \<Rightarrow> selection_result io" where
  "wipe_selection arg method cb W =
     (case datetime_now W of (start_time, W0) \<Rightarrow>
      case arg of
        NoLen \<Rightarrow> (Inl (Exception TypeError), W0)
      | FileList file_list \<Rightarrow>
      let result = \<lparr>s_method = method, s_total_files = length file_list, s_successful = 0,
                    s_failed = 0, s_skipped = 0, s_files = [], s_start_time = start_time,
                    s_end_time = None, s_duration = None\<rparr>
      in case selection_loop method cb (length file_list) 0 file_list result W0 of
           ((ex, result1), W1) \<Rightarrow>
             (case datetime_now W1 of (end_time, W2) \<Rightarrow>
                (case ex of
                   None \<Rightarrow>
                     (Inr (result1\<lparr>s_end_time := Some end_time,
                                   s_duration := Some (end_time - start_time)\<rparr>), W2)
                 | Some (Exception e) \<Rightarrow>
                     (Inr (result1\<lparr>s_files := s_files result1 @ [ErrorOnly (exn_str e)],
                                   s_end_time := Some end_time,
                                   s_duration := Some (end_time - start_time)\<rparr>), W2)
                 | Some b \<Rightarrow> (Inl b, W2))))"

section \<open>Validator (utils/validation.py)\<close>

record path_result =
  p_valid :: bool
  p_exists :: bool
  p_accessible :: bool
  p_type :: "string option"
  p_errors :: "string list"

record perm_result =
  can_delete :: bool
  readable :: bool
  writable :: bool
  parent_writable :: bool
  perm_errors :: "string list"

record selection_check =
  v_valid :: bool
  v_total_files :: nat
  v_valid_files :: "path list"
  v_invalid_files :: "(path \<times> string list) list"
  v_system_files :: "path list"
  v_warnings :: "string list"
  v_errors :: "string list"

text \<open>\<open>os.access\<close> follows symbolic links and answers \<open>False\<close> instead of raising.\<close>

definition access_R_OK :: "world \<Rightarrow> path \<Rightarrow> bool" where
  "access_R_OK W p =
     (case stat_node W p of
        Some (q, File r w c) \<Rightarrow> r | Some (q, Dir r w) \<Rightarrow> r | Some (q, Special r w) \<Rightarrow> r
      | _ \<Rightarrow> False)"

definition access_W_OK :: "world \<Rightarrow> path \<Rightarrow> bool" where
  "access_W_OK W p =
     (case stat_node W p of
        Some (q, File r w c) \<Rightarrow> w | Some (q, Dir r w) \<Rightarrow> w | Some (q, Special r w) \<Rightarrow> w
      | _ \<Rightarrow> False)"

definition parent :: "path \<Rightarrow> path" where
  "parent p =
     (let d = rev (drop 1 (dropWhile (\<lambda>c. c \<noteq> CHR ''/'') (rev p)))
      in if d \<noteq> [] then d
         else (case p of c # cs \<Rightarrow> if c = CHR ''/'' then ''/'' else ''.'' | [] \<Rightarrow> ''.''))"

definition has_invalid_chars :: "string \<Rightarrow> bool" where
  "has_invalid_chars p \<longleftrightarrow>
     CHR 0x00 \<in> set p \<or>
     list_ex (\<lambda>c. (of_char c :: nat) < 32)
       (filter (\<lambda>c. c \<notin> set [CHR 0x09, CHR 0x0A, CHR 0x0D]) p)"

definition validate_path :: "world \<Rightarrow> path \<Rightarrow> path_result" where
  "validate_path W p =
     (let result = \<lparr>p_valid = False, p_exists = False, p_accessible = False, p_type = None,
                    p_errors = []\<rparr>
      in if has_invalid_chars p then
           result\<lparr>p_errors := [''Path contains invalid characters'']\<rparr>
         else if \<not> path_exists W p then result\<lparr>p_errors := [''Path does not exist'']\<rparr>
         else if is_file W p then
           (if \<not> access_R_OK W p then
              result\<lparr>p_exists := True, p_type := Some ''file'',
                     p_errors := [''Path is not readable'']\<rparr>
            else result\<lparr>p_exists := True, p_type := Some ''file'', p_accessible := True,
                        p_valid := True\<rparr>)
         else if is_dir W p then
           (if \<not> access_R_OK W p then
              result\<lparr>p_exists := True, p_type := Some ''directory'',
                     p_errors := [''Path is not readable'']\<rparr>
            else result\<lparr>p_exists := True, p_type := Some ''directory'', p_accessible := True,
                        p_valid := True\<rparr>)
         else if is_symlink W p then
           result\<lparr>p_exists := True, p_type := Some ''symlink'',
                  p_errors := [''Symbolic links are not supported'']\<rparr>
         else result\<lparr>p_exists := True, p_type := Some ''unknown'',
                     p_errors := [''Unknown path type'']\<rparr>)"

definition validate_permissions :: "world \<Rightarrow> path \<Rightarrow> perm_result" where
  "validate_permissions W p =
     (let result = \<lparr>can_delete = False, readable = False, writable = False,
                    parent_writable = False, perm_errors = []\<rparr>
      in if \<not> path_exists W p then result\<lparr>perm_errors := [''Path does not exist'']\<rparr>
         else
           (let r = access_R_OK W p; w = access_W_OK W p; pw = access_W_OK W (parent p);
                result1 = result\<lparr>readable := r, writable := w, parent_writable := pw\<rparr>
            in if w \<and> pw then result1\<lparr>can_delete := True\<rparr>
               else result1\<lparr>perm_errors :=
                      (if \<not> w then [''File is not writable''] else [])
                      @ (if \<not> pw then [''Parent directory is not writable''] else [])\<rparr>))"

text \<open>Python's \<open>str.lower()\<close> on the ASCII letters; other characters are kept.\<close>

definition lower_char :: "char \<Rightarrow> char" where
  "lower_char c =
     (case map_of (zip ''ABCDEFGHIJKLMNOPQRSTUVWXYZ'' ''abcdefghijklmnopqrstuvwxyz'') c of
        Some l \<Rightarrow> l
      | None \<Rightarrow> c)"

definition lower :: "string \<Rightarrow> string" where
  "lower s = map lower_char s"

definition digit_char :: "nat \<Rightarrow> char" where
  "digit_char d = ''0123456789'' ! d"

fun show_nat :: "nat \<Rightarrow> string" where
  "show_nat n =
     (if n < 10 then [digit_char n] else show_nat (n div 10) @ [digit_char (n mod 10)])"

declare show_nat.simps [simp del]

text \<open>
  The platform handler is known to the validator only through \<open>is_system_file\<close>;
  \<open>None\<close> is the default argument \<open>platform_handler=None\<close>.
\<close>

fun selection_check_loop ::
  "world \<Rightarrow> (string \<Rightarrow> bool) option \<Rightarrow> path list \<Rightarrow> selection_check \<Rightarrow> selection_check" where
  "selection_check_loop W platform_handler [] result = result"
| "selection_check_loop W platform_handler (file_path # rest) result =
     (let path_result = validate_path W file_path in
      if \<not> p_valid path_result then
        selection_check_loop W platform_handler rest
          (result\<lparr>v_invalid_files := v_invalid_files result
                                      @ [(file_path, p_errors path_result)]\<rparr>)
      else if (case platform_handler of
                 None \<Rightarrow> False
               | Some is_system_file \<Rightarrow> is_system_file (lower file_path)) then
        selection_check_loop W platform_handler rest
          (result\<lparr>v_system_files := v_system_files result @ [file_path],
                  v_warnings := v_warnings result
                    @ [''WARNING: '' @ file_path @ '' appears to be a system file'']\<rparr>)
      else
        (let perm_result = validate_permissions W file_path in
         if \<not> can_delete perm_result then
           selection_check_loop W platform_handler rest
             (result\<lparr>v_invalid_files := v_invalid_files result
                                         @ [(file_path, perm_errors perm_result)]\<rparr>)
         else
           selection_check_loop W platform_handler rest
             (result\<lparr>v_valid_files := v_valid_files result @ [file_path]\<rparr>)))"

definition validate_selection ::
  "world \<Rightarrow> path list \<Rightarrow> (string \<Rightarrow> bool) option \<Rightarrow> selection_check" where
  "validate_selection W file_list platform_handler =
     (let result = \<lparr>v_valid = True, v_total_files = length file_list, v_valid_files = [],
                    v_invalid_files = [], v_system_files = [], v_warnings = [], v_errors = []\<rparr>
      in if file_list = [] then result\<lparr>v_valid := False, v_errors := [''No files selected'']\<rparr>
         else
           (let result1 = selection_check_loop W platform_handler file_list result;
                result2 = (if v_system_files result1 \<noteq> [] then
                             result1\<lparr>v_valid := False,
                                     v_errors := v_errors result1
                                       @ [show_nat (length (v_system_files result1))
                                          @ '' system file(s) detected - deletion not allowed'']\<rparr>
                           else result1)
            in if length (v_valid_files result2) = 0 then
                 result2\<lparr>v_valid := False,
                         v_errors := v_errors result2 @ [''No valid files to delete'']\<rparr>
               else result2))"

subsection \<open>The platform handlers' deny-lists (platforms/)\<close>

definition startswith :: "string \<Rightarrow> string \<Rightarrow> bool" where
  "startswith s pre \<longleftrightarrow> take (length pre) s = pre"

definition WindowsPlatform_is_system_file :: "string \<Rightarrow> bool" where
  "WindowsPlatform_is_system_file p =
     list_ex (startswith p)
       [''/bin/'', ''/sbin/'', ''/boot/'', ''/dev/'', ''/proc/'', ''/sys/'',
        ''/lib/'', ''/lib64/'', ''/usr/bin/'', ''/usr/sbin/'', ''/usr/lib/'',
        ''/etc/fstab'', ''/etc/passwd'', ''/etc/shadow'', ''/etc/group'']"

definition MacOSPlatform_is_system_file :: "string \<Rightarrow> bool" where
  "MacOSPlatform_is_system_file p =
     list_ex (startswith p)
       [''/system/'', ''/private/'', ''/usr/bin/'', ''/usr/sbin/'',
        ''/usr/lib/'', ''/bin/'', ''/sbin/'', ''/boot/'',
        ''/library/extensions/'', ''/system/library/'',
        ''/private/var/db/'', ''/private/var/vm/'']"

section \<open>CertificateManager (core/certificate.py)\<close>

text \<open>
  The \<open>cryptography\<close>, \<open>hashlib\<close> and \<open>json\<close> libraries are parameters of the model.
  Keys are numbers. \<open>dumps_sorted\<close> is \<open>json.dumps(\<cdot>, sort_keys=True)\<close>; a certificate file
  is kept as the document that \<open>json.load\<close> reads back from it. The PSS salt is left out:
  no statement below depends on the bytes of a signature.
\<close>

record crypto =
  rsa_generate :: "exn + nat"
  public_of :: "nat \<Rightarrow> nat"
  rsa_sign :: "nat \<Rightarrow> string \<Rightarrow> exn + byte list"
  rsa_verify :: "nat \<Rightarrow> byte list \<Rightarrow> string \<Rightarrow> bool"
  public_pem :: "nat \<Rightarrow> string"
  load_pem_public_key :: "string \<Rightarrow> exn + nat"
  dumps_sorted :: "json \<Rightarrow> string"
  sha256_hexdigest :: "string \<Rightarrow> string"
  isoformat :: "nat \<Rightarrow> string"

record manager =
  private_key :: "nat option"
  certificate :: "nat option"

text \<open>
  The module imports the class with \<open>from datetime import datetime\<close>, so the expression
  \<open>datetime.timedelta(days=3650)\<close> in \<open>_initialize_keys\<close> looks \<open>timedelta\<close> up on the class
  \<open>datetime.datetime\<close>, which has no such attribute: the lookup raises \<open>AttributeError\<close>.
\<close>

definition datetime_timedelta :: "nat \<Rightarrow> exn + nat" where
  "datetime_timedelta days = Inl AttributeError"

definition initialize_keys :: "crypto \<Rightarrow> manager \<Rightarrow> manager" where
  "initialize_keys C M =
     (case rsa_generate C of
        Inl e \<Rightarrow> M
      | Inr k \<Rightarrow>
          (let M1 = M\<lparr>private_key := Some k\<rparr> in
           case datetime_timedelta 3650 of
             Inl e \<Rightarrow> M1
           | Inr not_valid_after \<Rightarrow> M1\<lparr>certificate := Some (public_of C k)\<rparr>))"

definition CertificateManager :: "crypto \<Rightarrow> manager" where
  "CertificateManager C = initialize_keys C \<lparr>private_key = None, certificate = None\<rparr>"

definition hex_digit :: "nat \<Rightarrow> char" where
  "hex_digit n = ''0123456789abcdef'' ! n"

definition hex :: "byte list \<Rightarrow> string" where
  "hex bs = concat (map (\<lambda>b. [hex_digit (unat b div 16), hex_digit (unat b mod 16)]) bs)"

definition hex_val :: "char \<Rightarrow> nat option" where
  "hex_val c =
     (let n = (of_char c :: nat) in
      if 48 \<le> n \<and> n \<le> 57 then Some (n - 48)
      else if 97 \<le> n \<and> n \<le> 102 then Some (n - 87)
      else if 65 \<le> n \<and> n \<le> 70 then Some (n - 55)
      else None)"

definition is_space :: "char \<Rightarrow> bool" where
  "is_space c \<longleftrightarrow> c \<in> set [CHR '' '', CHR 0x09, CHR 0x0A, CHR 0x0B, CHR 0x0C, CHR 0x0D]"

fun fromhex :: "string \<Rightarrow> exn + byte list" where
  "fromhex [] = Inr []"
| "fromhex [c] = (if is_space c then Inr [] else Inl ValueError)"
| "fromhex (c # d # cs) =
     (if is_space c then fromhex (d # cs)
      else case (hex_val c, hex_val d) of
             (Some a, Some b) \<Rightarrow>
               (case fromhex cs of Inl e \<Rightarrow> Inl e | Inr bs \<Rightarrow> Inr (of_nat (16 * a + b) # bs))
           | _ \<Rightarrow> Inl ValueError)"

definition upper_char :: "char \<Rightarrow> char" where
  "upper_char c =
     (case map_of (zip ''abcdefghijklmnopqrstuvwxyz'' ''ABCDEFGHIJKLMNOPQRSTUVWXYZ'') c of
        Some u \<Rightarrow> u
      | None \<Rightarrow> c)"

definition dict_get :: "(string \<times> json) list \<Rightarrow> string \<Rightarrow> json \<Rightarrow> json" where
  "dict_get d k dflt = (case map_of d k of None \<Rightarrow> dflt | Some v \<Rightarrow> v)"

definition truthy :: "json \<Rightarrow> bool" where
  "truthy j =
     (case j of
        JNull \<Rightarrow> False | JBool b \<Rightarrow> b | JInt i \<Rightarrow> i \<noteq> 0 | JReal x \<Rightarrow> x \<noteq> 0
      | JStr s \<Rightarrow> s \<noteq> [] | JArr xs \<Rightarrow> xs \<noteq> [] | JObj kv \<Rightarrow> kv \<noteq> [])"

definition generate_certificate_id :: "crypto \<Rightarrow> world \<Rightarrow> string \<times> world" where
  "generate_certificate_id C W =
     (case datetime_now W of (timestamp, W1) \<Rightarrow>
        (map upper_char (take 16 (sha256_hexdigest C (isoformat C timestamp))), W1))"

definition get_method_description :: "json \<Rightarrow> exn + string" where
  "get_method_description method =
     (case method of
        JStr m \<Rightarrow>
          Inr (if m = ''clear'' then ''NIST Clear - Single pass overwrite with zeros''
               else if m = ''purge'' then ''NIST Purge - Multi-pass overwrite (DoD 5220.22-M)''
               else ''Unknown method'')
      | JArr xs \<Rightarrow> Inl TypeError
      | JObj kv \<Rightarrow> Inl TypeError
      | _ \<Rightarrow> Inr ''Unknown method'')"

definition get_public_key_pem :: "crypto \<Rightarrow> manager \<Rightarrow> string" where
  "get_public_key_pem C M =
     (case certificate M of None \<Rightarrow> '''' | Some public_key \<Rightarrow> public_pem C public_key)"

definition sign_deletion_log :: "crypto \<Rightarrow> manager \<Rightarrow> json \<Rightarrow> exn + string" where
  "sign_deletion_log C M data =
     (case (case private_key M of
              None \<Rightarrow> Inl ValueError
            | Some k \<Rightarrow>
                (case rsa_sign C k (dumps_sorted C data) of
                   Inl e \<Rightarrow> Inl e
                 | Inr signature \<Rightarrow> Inr (hex signature))) of
        Inl e \<Rightarrow> Inr ''''
      | Inr s \<Rightarrow> Inr s)"

definition sliced_files :: "json \<Rightarrow> exn + json list" where
  "sliced_files files =
     (case files of
        JArr xs \<Rightarrow> Inr (take 1000 xs)
      | JStr s \<Rightarrow> Inr (map (\<lambda>c. JStr [c]) (take 1000 s))
      | _ \<Rightarrow> Inl TypeError)"

fun file_details :: "json list \<Rightarrow> exn + json list" where
  "file_details [] = Inr []"
| "file_details (file_result # rest) =
     (case file_result of
        JObj d \<Rightarrow>
          (case file_details rest of
             Inl e \<Rightarrow> Inl e
           | Inr es \<Rightarrow>
               Inr (JObj [(''path'', dict_get d ''file'' (JStr ''unknown'')),
                          (''success'', dict_get d ''success'' (JBool False)),
                          (''verified'', dict_get d ''verified'' (JBool False))] # es))
      | _ \<Rightarrow> Inl AttributeError)"

definition lift :: "exn + 'a \<Rightarrow> 'a io" where
  "lift r W = (case r of Inl e \<Rightarrow> (Inl (Exception e), W) | Inr x \<Rightarrow> (Inr x, W))"

definition open_w_dump :: "path \<Rightarrow> json \<Rightarrow> unit io" where
  "open_w_dump p doc = io_bind syscall (\<lambda>u W.
     if is_dir W p then (Inl (Exception IsADirectoryError), W)
     else (Inr (), W\<lparr>documents := (p, doc) # filter (\<lambda>(q, d). q \<noteq> p) (documents W)\<rparr>))"

definition open_r_load :: "path \<Rightarrow> json io" where
  "open_r_load p = io_bind syscall (\<lambda>u W.
     case map_of (documents W) p of
       None \<Rightarrow> (Inl (Exception FileNotFoundError), W)
     | Some doc \<Rightarrow> (Inr doc, W))"

definition generate_wipe_certificate ::
  "crypto \<Rightarrow> manager \<Rightarrow> (string \<times> json) list \<Rightarrow> string option \<Rightarrow> string io" where
  "generate_wipe_certificate C M operation_results output_path =
     io_except
       (\<lambda>W. case generate_certificate_id C W of (certificate_id, W1) \<Rightarrow>
             (case datetime_now W1 of (timestamp, W2) \<Rightarrow>
        (io_bind (lift (get_method_description (dict_get operation_results ''method'' (JStr ''clear''))))
           (\<lambda>method_description.
         io_bind (lift (sliced_files (dict_get operation_results ''files'' (JArr [])))) (\<lambda>files.
         io_bind (lift (file_details files)) (\<lambda>details.
         let cert_data =
               [(''certificate_id'', JStr certificate_id),
                (''timestamp'', JStr (isoformat C timestamp)),
                (''operation'', JObj
                   [(''method'', dict_get operation_results ''method'' (JStr ''unknown'')),
                    (''start_time'', dict_get operation_results ''start_time'' JNull),
                    (''end_time'', dict_get operation_results ''end_time'' JNull),
                    (''duration'', dict_get operation_results ''duration'' JNull)]),
                (''results'', JObj
                   [(''total_files'', dict_get operation_results ''total_files'' (JInt 0)),
                    (''successful'', dict_get operation_results ''successful'' (JInt 0)),
                    (''failed'', dict_get operation_results ''failed'' (JInt 0))]),
                (''compliance'', JObj
                   [(''standard'', JStr ''NIST SP 800-88''),
                    (''method_description'', JStr method_description)]),
                (''files'', JArr details)]
         in
         io_bind (lift (sign_deletion_log C M (JObj cert_data))) (\<lambda>signature.
         let signed = cert_data @ [(''signature'', JStr signature),
                                   (''public_key'', JStr (get_public_key_pem C M))]
         in
         io_bind (\<lambda>W3. case output_path of
                          Some p \<Rightarrow> if p \<noteq> [] then (Inr p, W3)
                                    else (case datetime_now W3 of (t, W4) \<Rightarrow>
                                      (Inr (''deletion_certificate_'' @ show_nat t @ ''.json''), W4))
                        | None \<Rightarrow> (case datetime_now W3 of (t, W4) \<Rightarrow>
                                      (Inr (''deletion_certificate_'' @ show_nat t @ ''.json''), W4)))
           (\<lambda>out.
         io_bind (open_w_dump out (JObj signed)) (\<lambda>u.
         io_return out))))))) W2))
       (\<lambda>e. io_raise (Exception e))"

definition verify_certificate :: "crypto \<Rightarrow> path \<Rightarrow> bool io" where
  "verify_certificate C cert_path =
     io_except
       (io_bind (open_r_load cert_path) (\<lambda>doc.
        case doc of
          JObj d \<Rightarrow>
            (case dict_get d ''signature'' (JStr '''') of
               JStr sig_hex \<Rightarrow>
                 io_bind (lift (fromhex sig_hex)) (\<lambda>signature.
                 let public_key_pem = dict_get d ''public_key'' (JStr '''');
                     cert_data = filter (\<lambda>(k, v). k \<noteq> ''signature'' \<and> k \<noteq> ''public_key'') d
                 in if signature = [] \<or> \<not> truthy public_key_pem then io_return False
                    else
                      (case public_key_pem of
                         JStr pem \<Rightarrow>
                           io_bind (lift (load_pem_public_key C pem)) (\<lambda>public_key.
                           io_return (rsa_verify C public_key signature
                                        (dumps_sorted C (JObj cert_data))))
                       | _ \<Rightarrow> io_raise (Exception AttributeError)))
             | _ \<Rightarrow> io_raise (Exception TypeError))
        | _ \<Rightarrow> io_raise (Exception TypeError)))
       (\<lambda>e. io_return False)"

section \<open>Notions used in the statements\<close>

text \<open>The number of blocks of a file of \<open>n\<close> bytes: \<open>n / BLOCK_SIZE\<close> rounded up.\<close>

definition blocks :: "nat \<Rightarrow> nat" where
  "blocks n = (n + (BLOCK_SIZE - 1)) div BLOCK_SIZE"

text \<open>
  A stream of writes on handle \<open>h\<close> that zero-fills \<open>n\<close> bytes from offset \<open>off\<close> on, block
  after block.
\<close>

definition zero_stream :: "nat \<Rightarrow> nat \<Rightarrow> nat \<Rightarrow> (nat \<times> nat \<times> byte list) list \<Rightarrow> bool" where
  "zero_stream h off n ws \<longleftrightarrow>
     length ws = blocks n \<and>
     concat (map (\<lambda>w. snd (snd w)) ws) = replicate n 0 \<and>
     map (\<lambda>w. fst (snd w)) ws = map (\<lambda>i. off + i * BLOCK_SIZE) [0..<length ws] \<and>
     list_all (\<lambda>w. fst w = h) ws"

text \<open>A small world: a directory with one three-byte file, no faults, no signals.\<close>

definition demo_world :: world where
  "demo_world =
     \<lparr>nodes = [(''/data'', Dir True True), (''/data/a.txt'', File True True [1, 2, 3])],
      documents = [], faults = [], entropy = (\<lambda>i. of_nat i), drawn = 0, opens = 0,
      writes = [], progress = [], clock = 0, cancel_requested = False, signals = [],
      released = []\<rparr>"

text \<open>A world with a symbolic link to a readable, writable regular file.\<close>

definition symlink_world :: world where
  "symlink_world =
     demo_world\<lparr>nodes := [(''/tmp'', Dir True True),
                           (''/tmp/real.txt'', File True True [1, 2, 3]),
                           (''/tmp/link'', Symlink ''/tmp/real.txt'')]\<rparr>"

text \<open>
  A world as an unprivileged user sees \<open>/etc\<close>: \<open>/etc/passwd\<close> can be read,
  \<open>/etc/shadow\<close> cannot, and nothing there can be written.
\<close>

definition etc_world :: world where
  "etc_world =
     demo_world\<lparr>nodes := [(''/etc'', Dir True False),
                           (''/etc/passwd'', File True False [1, 2, 3]),
                           (''/etc/shadow'', File False False [4, 5, 6])]\<rparr>"

text \<open>
  A toy instance of the library parameters, used to run the model: a signature made
  with key \<open>k\<close> records \<open>k\<close> and the length of the signed text, and verifies under the
  public key \<open>k\<close> for the texts of that length.
\<close>

definition toy_dumps :: "json \<Rightarrow> string" where
  "toy_dumps j = (case j of JObj kv \<Rightarrow> concat (map (\<lambda>(k, v). k @ '';'') kv) | _ \<Rightarrow> '''')"

definition toy_crypto :: crypto where
  "toy_crypto =
     \<lparr>rsa_generate = Inr 7,
      public_of = (\<lambda>k. k),
      rsa_sign = (\<lambda>k text. Inr [of_nat k, of_nat (length text)]),
      rsa_verify = (\<lambda>k signature text. signature = [of_nat k, of_nat (length text)]),
      public_pem = (\<lambda>k. replicate k (CHR ''k'')),
      load_pem_public_key = (\<lambda>pem. if pem = [] then Inl ValueError else Inr (length pem)),
      dumps_sorted = toy_dumps,
      sha256_hexdigest = (\<lambda>s. s @ ''0123456789abcdef''),
      isoformat = show_nat\<rparr>"

text \<open>The result of wiping one file, as \<open>wipe_selection\<close> hands it to the certificate.\<close>

definition demo_batch :: "(string \<times> json) list" where
  "demo_batch =
     [(''method'', JStr ''clear''), (''total_files'', JInt 1), (''successful'', JInt 1),
      (''failed'', JInt 0), (''skipped'', JInt 0),
      (''files'', JArr [JObj [(''file'', JStr ''/data/a.txt''), (''method'', JStr ''clear''),
                             (''success'', JBool True), (''error'', JNull),
                             (''verified'', JBool True)]]),
      (''start_time'', JStr ''0''), (''end_time'', JStr ''1''), (''duration'', JInt 1)]"

text \<open>A manager whose key generation failed: no private key, no certificate.\<close>

definition keyless :: manager where
  "keyless = \<lparr>private_key = None, certificate = None\<rparr>"

text \<open>
  The demo world with a fault schedule that lets a three-pass purge of the demo file
  through (one \<open>stat\<close>, then open, write, flush and sync per pass) and fails the next
  system call, the \<open>stat\<close> of the verification step.
\<close>

definition verify_fault_world :: world where
  "verify_fault_world =
     demo_world\<lparr>faults := [False, False, False, False, False, False, False, False, False,
                            False, False, False, False, True]\<rparr>"

text \<open>
  What a batch loop observes of the world between two files: the cancellation flag, the
  pending signals and the progress values reported so far. A computation keeps a
  projection of the world when it returns a world with the same projection.
\<close>

definition obs :: "world \<Rightarrow> bool \<times> bool list \<times> real list" where
  "obs W = (cancel_requested W, signals W, progress W)"

definition keeps :: "(world \<Rightarrow> 'a) \<Rightarrow> 'b io \<Rightarrow> bool" where
  "keeps g m \<longleftrightarrow> (\<forall>W. g (snd (m W)) = g W)"

text \<open>
  A list of progress values climbs from \<open>lo\<close> to \<open>hi\<close> when it is non-decreasing and
  every value lies in the interval from \<open>lo\<close> (excluded) to \<open>hi\<close> (included).
  \<open>pass_percent p n x\<close> is the value \<open>_overwrite_pass\<close> reports when the fraction \<open>x\<close> of pass
  \<open>p\<close> of \<open>n\<close> is written.
\<close>

definition climbs :: "real \<Rightarrow> real \<Rightarrow> real list \<Rightarrow> bool" where
  "climbs lo hi vs \<longleftrightarrow> sorted vs \<and> list_all (\<lambda>v. lo < v \<and> v \<le> hi) vs"

definition pass_percent :: "nat \<Rightarrow> nat \<Rightarrow> real \<Rightarrow> real" where
  "pass_percent p n x = (real (p - 1) / real n + x / real n) * 100"

text \<open>What a write of \<open>bs\<close> at offset \<open>off\<close> of the file \<open>p\<close> does to the node stored under \<open>q\<close>.\<close>

definition upd_node :: "path \<Rightarrow> nat \<Rightarrow> byte list \<Rightarrow> path \<Rightarrow> node \<Rightarrow> node" where
  "upd_node p off bs q n =
     (case n of File r w c \<Rightarrow> if q = p then File r w (overwrite_at off bs c) else n | _ \<Rightarrow> n)"

text \<open>
  \<open>is_Exception b\<close> is Python's \<open>isinstance(b, Exception)\<close>: what an \<open>except Exception\<close>
  handler catches. \<open>raises_only P m\<close> says that whatever the computation \<open>m\<close> raises
  satisfies \<open>P\<close>. \<open>from_callback cb b\<close> says that the callback \<open>cb\<close> raises \<open>b\<close> on some
  value.
\<close>

fun is_Exception :: "raised \<Rightarrow> bool" where
  "is_Exception (Exception e) = True"
| "is_Exception KeyboardInterrupt = False"
| "is_Exception SystemExit = False"

definition raises_only :: "(raised \<Rightarrow> bool) \<Rightarrow> 'a io \<Rightarrow> bool" where
  "raises_only P m \<longleftrightarrow> (\<forall>W b W1. m W = (Inl b, W1) \<longrightarrow> P b)"

definition from_callback :: "callback \<Rightarrow> raised \<Rightarrow> bool" where
  "from_callback cb b \<longleftrightarrow> (\<exists>react v. cb = Some react \<and> react v = Some b)"

text \<open>
  What the body of a \<open>try\<close> block that calls \<open>cb\<close> may raise, and what an
  \<open>except Exception\<close> around it lets through.
\<close>

definition may_raise :: "callback \<Rightarrow> raised \<Rightarrow> bool" where
  "may_raise cb b \<longleftrightarrow> is_Exception b \<or> from_callback cb b"

definition escapes :: "callback \<Rightarrow> raised \<Rightarrow> bool" where
  "escapes cb b \<longleftrightarrow> \<not> is_Exception b \<and> from_callback cb b"

text \<open>A callback during which the user presses Ctrl-C.\<close>

definition interrupted :: callback where
  "interrupted = Some (\<lambda>v. Some KeyboardInterrupt)"

text \<open>
  A folder with two files, and a user who asks for cancellation while the first file is
  being wiped.
\<close>

definition two_files_world :: world where
  "two_files_world =
     demo_world\<lparr>nodes := [(''/data'', Dir True True),
                           (''/data/a.txt'', File True True [1, 2, 3]),
                           (''/data/b.txt'', File True True [4, 5])],
                 signals := [True]\<rparr>"

text \<open>A callback that records the values it is given and never raises.\<close>

definition recording :: callback where
  "recording = Some (\<lambda>v. None)"

section \<open>Basic facts about the environment\<close>

lemma io_bind_Inr:
  "io_bind m f W = (Inr y, W') \<Longrightarrow> \<exists>x W1. m W = (Inr x, W1) \<and> f x W1 = (Inr y, W')"
  by (auto simp: io_bind_def split: prod.splits sum.splits)

lemma io_bind_elim:
  assumes "io_bind m f W = (r, W')"
  obtains (raised) e where "m W = (Inl e, W')" "r = Inl e"
  | (bound) x W1 where "m W = (Inr x, W1)" "f x W1 = (r, W')"
  using assms by (auto simp: io_bind_def split: prod.splits sum.splits)

lemma io_except_elim:
  assumes "io_except m h W = (r, W')"
  obtains (passed) x where "m W = (Inr x, W')" "r = Inr x"
  | (handled) e W1 where "m W = (Inl (Exception e), W1)" "h e W1 = (r, W')"
  | (escaped) b where "m W = (Inl b, W')" "r = Inl b" "\<forall>e. b \<noteq> Exception e"
  using assms by (auto simp: io_except_def split: prod.splits sum.splits raised.splits)

lemma except_False_elim:
  assumes "io_except m (\<lambda>e. io_return False) W = (r, W')"
  obtains r0 where "m W = (r0, W')"
    "r = (case r0 of Inl (Exception e) \<Rightarrow> Inr False | Inl b \<Rightarrow> Inl b | Inr x \<Rightarrow> Inr x)"
  using assms
  by (cases rule: io_except_elim) (auto simp: io_return_def split: raised.splits)

lemma syscall_frame:
  "syscall W = (r, W1) \<Longrightarrow>
     nodes W1 = nodes W \<and> writes W1 = writes W \<and> opens W1 = opens W \<and>
     progress W1 = progress W \<and> drawn W1 = drawn W \<and> entropy W1 = entropy W \<and>
     documents W1 = documents W \<and> clock W1 = clock W \<and>
     cancel_requested W1 = cancel_requested W \<and> signals W1 = signals W \<and>
     released W1 = released W"
  by (auto simp: syscall_def tick_def split: list.splits if_splits)

lemma syscall_only_faults: "syscall W = (r, W1) \<Longrightarrow> \<exists>fs. W1 = W\<lparr>faults := fs\<rparr>"
proof -
  assume "syscall W = (r, W1)"
  then have "W1 = W\<lparr>faults := faults W1\<rparr>"
    by (auto simp: syscall_def tick_def split: list.splits if_splits)
  then show ?thesis ..
qed

lemma syscall_raises: "syscall W = (Inl b, W1) \<Longrightarrow> b = Exception OSError"
  by (auto simp: syscall_def split: prod.splits if_splits)

lemma file_write_Inr:
  "file_write f bs W = (Inr f1, W1) \<Longrightarrow>
     f1 = f\<lparr>hpos := hpos f + length bs\<rparr> \<and> writes W1 = writes W @ [(hid f, hpos f, bs)] \<and>
     nodes W1 = put_bytes (hpath f) (hpos f) bs (nodes W) \<and>
     opens W1 = opens W \<and> progress W1 = progress W \<and> drawn W1 = drawn W \<and>
     entropy W1 = entropy W \<and> released W1 = released W"
  by (auto simp: file_write_def dest!: io_bind_Inr syscall_frame)

lemma call_progress_frame:
  "call_progress cb v W = (r, W1) \<Longrightarrow>
     nodes W1 = nodes W \<and> writes W1 = writes W \<and> opens W1 = opens W \<and>
     drawn W1 = drawn W \<and> entropy W1 = entropy W \<and> released W1 = released W"
  by (auto simp: call_progress_def split: option.splits if_splits)

lemma BLOCK_SIZE_pos: "0 < BLOCK_SIZE"
  by (simp add: BLOCK_SIZE_def)

lemma chunk_bounds:
  assumes "bw < S"
  shows "0 < min BLOCK_SIZE (S - bw)" "bw + min BLOCK_SIZE (S - bw) \<le> S"
  using assms BLOCK_SIZE_pos by auto

subsection \<open>Unfolding the loops\<close>

lemma clear_loop_done: "\<not> bw < S \<Longrightarrow> clear_loop cb S f bw W = (Inr f, W)"
  by (subst clear_loop.simps) simp

lemma clear_loop_step:
  "bw < S \<Longrightarrow> clear_loop cb S f bw W =
     (case file_write f (replicate (min BLOCK_SIZE (S - bw)) 0) W of
        (Inl e, W1) \<Rightarrow> (Inl e, W1)
      | (Inr f1, W1) \<Rightarrow>
          (case call_progress cb
                  (real (bw + min BLOCK_SIZE (S - bw)) / real S * 100) W1 of
             (Inl e, W2) \<Rightarrow> (Inl e, W2)
           | (Inr u, W2) \<Rightarrow> clear_loop cb S f1 (bw + min BLOCK_SIZE (S - bw)) W2))"
  by (subst clear_loop.simps) (simp add: Let_def)

lemma overwrite_loop_done:
  "\<not> bw < S \<Longrightarrow> overwrite_loop cb S pat p n f bw W = (Inr f, W)"
  by (subst overwrite_loop.simps) simp

lemma overwrite_loop_step:
  "bw < S \<Longrightarrow> overwrite_loop cb S pat p n f bw W =
     (case gen_data pat (min BLOCK_SIZE (S - bw)) W of
        (Inl e, W0) \<Rightarrow> (Inl e, W0)
      | (Inr bs, W0) \<Rightarrow>
      (case file_write f bs W0 of
        (Inl e, W1) \<Rightarrow> (Inl e, W1)
      | (Inr f1, W1) \<Rightarrow>
          (case call_progress cb
                  ((real (p - 1) / real n
                    + (real (bw + min BLOCK_SIZE (S - bw)) / real S) / real n) * 100) W1 of
             (Inl e, W2) \<Rightarrow> (Inl e, W2)
           | (Inr u, W2) \<Rightarrow>
               overwrite_loop cb S pat p n f1 (bw + min BLOCK_SIZE (S - bw)) W2)))"
  by (subst overwrite_loop.simps) (simp add: Let_def)

lemma purge_passes_done:
  "\<not> p \<le> n \<Longrightarrow> purge_passes file_path S cb n p W = (Inr True, W)"
  by (subst purge_passes.simps) simp

lemma purge_passes_step:
  "p \<le> n \<Longrightarrow> purge_passes file_path S cb n p W =
     (case overwrite_pass file_path S (pattern_of p) p n cb W of
        (Inl e, W1) \<Rightarrow> (Inl e, W1)
      | (Inr ok, W1) \<Rightarrow>
          if \<not> ok then (Inr False, W1)
          else purge_passes file_path S cb n (Suc p) W1)"
  by (subst purge_passes.simps) simp

lemma clear_loop_elim:
  assumes "clear_loop cb S f bw W = (r, W')" "bw < S"
  obtains (write_fails) e where
      "file_write f (replicate (min BLOCK_SIZE (S - bw)) 0) W = (Inl e, W')" "r = Inl e"
  | (callback_fails) f1 W1 e where
      "file_write f (replicate (min BLOCK_SIZE (S - bw)) 0) W = (Inr f1, W1)"
      "call_progress cb (real (bw + min BLOCK_SIZE (S - bw)) / real S * 100) W1 = (Inl e, W')"
      "r = Inl e"
  | (continues) f1 W1 W2 where
      "file_write f (replicate (min BLOCK_SIZE (S - bw)) 0) W = (Inr f1, W1)"
      "call_progress cb (real (bw + min BLOCK_SIZE (S - bw)) / real S * 100) W1 = (Inr (), W2)"
      "clear_loop cb S f1 (bw + min BLOCK_SIZE (S - bw)) W2 = (r, W')"
  using assms
  by (subst (asm) clear_loop.simps) (auto simp: Let_def split: prod.splits sum.splits)

subsection \<open>Evaluating the model on concrete worlds\<close>

lemmas io_defs = io_bind_def io_return_def io_raise_def io_except_def syscall_def tick_def
lemmas fs_defs = path_exists_def stat_node_def SYMLOOP_MAX_def resolve.simps st_size_def
  node_size_def size_of_def open_rw_def open_rb_def file_write_def put_bytes_def overwrite_at_def
  flush_def fsync_def unlink_def call_progress_def is_file_def is_dir_def is_symlink_def
  content_of_def file_read_def seek_set_def seek_end_def token_bytes_def
lemmas nist_defs = clear_method_def clear_body_def purge_method_def purge_body_def
  overwrite_pass_def verify_overwrite_def gen_data_def pattern_of_def verify_wipe_def
  BLOCK_SIZE_def
lemmas loop_eval = clear_loop_done clear_loop_step overwrite_loop_done overwrite_loop_step
  purge_passes_done purge_passes_step
lemmas demo_eval = demo_world_def nist_defs loop_eval io_defs fs_defs Let_def


section \<open>Clear: what a successful \<open>clear_method\<close> has done\<close>

lemma blocks_0: "blocks 0 = 0"
  using BLOCK_SIZE_pos by (simp add: blocks_def)

lemma blocks_small: "0 < n \<Longrightarrow> n \<le> BLOCK_SIZE \<Longrightarrow> blocks n = 1"
  unfolding blocks_def by (intro div_nat_eqI) auto

lemma blocks_step: "BLOCK_SIZE < n \<Longrightarrow> blocks n = Suc (blocks (n - BLOCK_SIZE))"
  unfolding blocks_def using BLOCK_SIZE_pos by (subst le_div_geq) auto

lemma zero_stream_step:
  assumes "0 < n" "c = min BLOCK_SIZE n" "zero_stream h (off + c) (n - c) ws"
  shows "zero_stream h off n ((h, off, replicate c 0) # ws)"
proof (cases "n \<le> BLOCK_SIZE")
  case True
  then have c: "c = n" using assms by simp
  with assms have "ws = []" by (simp add: zero_stream_def blocks_0)
  with assms True c show ?thesis by (simp add: zero_stream_def blocks_small)
next
  case False
  then have c: "c = BLOCK_SIZE" using assms by simp
  have cat: "replicate BLOCK_SIZE (0::byte) @ replicate (n - BLOCK_SIZE) 0 = replicate n 0"
    using False by (simp add: replicate_add [symmetric])
  have len: "blocks n = Suc (blocks (n - BLOCK_SIZE))"
    using False by (intro blocks_step) simp
  show ?thesis
    using assms(3) unfolding zero_stream_def c
    by (simp add: len cat map_upt_Suc del: upt_Suc)
qed

lemma put_bytes_alt: "put_bytes p off bs ns = map (\<lambda>(q, n). (q, upd_node p off bs q n)) ns"
  unfolding put_bytes_def upd_node_def
  by (rule map_cong [OF refl]) (simp split: node.splits prod.splits)

lemma map_of_put_bytes':
  "map_of (put_bytes p off bs ns) q = map_option (upd_node p off bs q) (map_of ns q)"
  unfolding put_bytes_alt by (induction ns) auto

lemma map_of_put_bytes:
  "map_of ns q = Some (File r w c) \<Longrightarrow>
     map_of (put_bytes q off bs ns) q = Some (File r w (overwrite_at off bs c))"
  by (simp add: map_of_put_bytes' upd_node_def)

lemma map_of_put_bytes_other:
  "q \<noteq> p \<Longrightarrow> map_of (put_bytes p off bs ns) q = map_of ns q"
  by (cases "map_of ns q") (auto simp: map_of_put_bytes' upd_node_def split: node.splits)

lemma overwrite_at_zero_prefix:
  assumes "length rest = n" "c \<le> n"
  shows "overwrite_at bw (replicate c 0) (replicate bw 0 @ rest)
           = replicate (bw + c) 0 @ drop c rest"
  using assms by (simp add: overwrite_at_def replicate_add)

text \<open>
  The loop on a handle at offset \<open>bw\<close> of a file whose first \<open>bw\<close> bytes are zero: the
  writes it issues, and the content it leaves in the file the handle is open on.
\<close>

lemma clear_loop_stream:
  "clear_loop cb S f bw W = (Inr f1, W1) \<Longrightarrow> bw \<le> S \<Longrightarrow> hpos f = bw \<Longrightarrow>
   map_of (nodes W) (hpath f) = Some (File r w (replicate bw 0 @ rest)) \<Longrightarrow>
   length rest = S - bw \<Longrightarrow>
     (\<exists>ws. writes W1 = writes W @ ws \<and> zero_stream (hid f) bw (S - bw) ws) \<and>
     map_of (nodes W1) (hpath f) = Some (File r w (replicate S 0)) \<and>
     (\<forall>p. p \<noteq> hpath f \<longrightarrow> map_of (nodes W1) p = map_of (nodes W) p) \<and>
     released W1 = released W"
proof (induction cb S f bw W arbitrary: rest rule: clear_loop.induct)
  case (1 cb S f bw W)
  show ?case
  proof (cases "bw < S")
    case False
    with "1.prems" show ?thesis
      by (simp add: clear_loop_done zero_stream_def blocks_0)
  next
    case True
    define c where "c = min BLOCK_SIZE (S - bw)"
    have c: "0 < c" "bw + c \<le> S" using chunk_bounds [OF True] by (simp_all add: c_def)
    from "1.prems"(1) True show ?thesis
    proof (cases rule: clear_loop_elim)
      case (continues f' W' W'')
      note wr = file_write_Inr [OF continues(1), folded c_def]
      note cp = call_progress_frame [OF continues(2)]
      have f': "hpos f' = bw + c" "hpath f' = hpath f" "hid f' = hid f"
        using wr "1.prems"(3) by simp_all
      have w'': "writes W'' = writes W @ [(hid f, bw, replicate c 0)]"
        using wr cp "1.prems"(3) by simp
      have "map_of (nodes W'') (hpath f)
              = Some (File r w (overwrite_at bw (replicate c 0) (replicate bw 0 @ rest)))"
        using wr cp "1.prems"(3,4) by (simp add: map_of_put_bytes)
      then have n'': "map_of (nodes W'') (hpath f')
              = Some (File r w (replicate (bw + c) 0 @ drop c rest))"
        using "1.prems"(5) c(2) f'(2)
        by (simp add: overwrite_at_zero_prefix [where n = "S - bw"])
      have len: "length (drop c rest) = S - (bw + c)" using "1.prems"(5) by simp
      from "1.IH" [OF True c_def continues(1) [folded c_def, symmetric] refl
                      continues(2) [folded c_def, symmetric] refl
                      continues(3) [folded c_def] c(2) f'(1) n'' len]
      obtain ws where ws: "writes W1 = writes W'' @ ws"
        "zero_stream (hid f') (bw + c) (S - (bw + c)) ws"
        and fin: "map_of (nodes W1) (hpath f') = Some (File r w (replicate S 0))"
        and oth: "\<forall>p. p \<noteq> hpath f' \<longrightarrow> map_of (nodes W1) p = map_of (nodes W'') p"
        and rel: "released W1 = released W''"
        by auto
      have "zero_stream (hid f) bw (S - bw) ((hid f, bw, replicate c 0) # ws)"
        using ws(2) True f'(3)
        by (intro zero_stream_step [where c = c]) (simp_all add: c_def)
      moreover have "map_of (nodes W'') p = map_of (nodes W) p" if "p \<noteq> hpath f" for p
        using wr cp that by (simp add: map_of_put_bytes_other)
      moreover have "released W'' = released W" using wr cp by simp
      ultimately show ?thesis using ws(1) w'' fin f'(2) oth rel by auto
    qed (use "1.prems"(1) in simp_all)
  qed
qed

lemma resolve_map_of: "resolve k ns p = Some (q, n) \<Longrightarrow> map_of ns q = Some n"
proof (induction k ns p rule: resolve.induct)
  case (1 k ns p)
  then show ?case
    by (subst (asm) (2) resolve.simps) (auto split: option.splits node.splits if_splits)
qed

lemma resolve_link:
  "resolve k ns p = Some (q, n) \<Longrightarrow> q \<noteq> p \<Longrightarrow> \<exists>t. map_of ns p = Some (Symlink t)"
  by (subst (asm) resolve.simps) (auto split: option.splits node.splits if_splits)

lemma map_of_remove: "q \<noteq> p \<Longrightarrow> map_of (filter (\<lambda>(x, n). x \<noteq> p) ns) q = map_of ns q"
  by (induction ns) auto

lemma st_size_Inr:
  "st_size p W = (Inr n, W1) \<Longrightarrow>
     (\<exists>q nd. stat_node W p = Some (q, nd) \<and> n = node_size nd) \<and>
     nodes W1 = nodes W \<and> writes W1 = writes W \<and> opens W1 = opens W \<and>
     progress W1 = progress W \<and> drawn W1 = drawn W \<and> entropy W1 = entropy W \<and>
     released W1 = released W"
  by (auto simp: st_size_def stat_node_def dest!: io_bind_Inr syscall_frame split: option.splits)

lemma open_rw_Inr:
  "open_rw p W = (Inr f, W1) \<Longrightarrow>
     hid f = opens W \<and> hpos f = 0 \<and> opens W1 = Suc (opens W) \<and>
     (\<exists>r w c. stat_node W p = Some (hpath f, File r w c)) \<and>
     nodes W1 = nodes W \<and> writes W1 = writes W \<and>
     progress W1 = progress W \<and> drawn W1 = drawn W \<and> entropy W1 = entropy W \<and>
     released W1 = released W"
  by (auto simp: open_rw_def stat_node_def dest!: io_bind_Inr syscall_frame
           split: option.splits node.splits if_splits)

lemma unlink_Inr:
  "unlink p W = (Inr u, W1) \<Longrightarrow>
     map_of (nodes W1) p = None \<and> writes W1 = writes W \<and> opens W1 = opens W \<and>
     progress W1 = progress W \<and> drawn W1 = drawn W \<and> entropy W1 = entropy W"
  by (auto simp: unlink_def map_of_eq_None_iff dest!: io_bind_Inr syscall_frame
           split: option.splits node.splits)

lemma unlink_released:
  "unlink p W = (Inr u, W1) \<Longrightarrow>
     (\<forall>q. q \<noteq> p \<longrightarrow> map_of (nodes W1) q = map_of (nodes W) q) \<and>
     released W1 = (case map_of (nodes W) p of
                      Some (File r w c) \<Rightarrow> released W @ [(p, c)] | _ \<Rightarrow> released W)"
  by (auto simp: unlink_def map_of_remove dest!: io_bind_Inr syscall_frame
           split: option.splits node.splits)

lemma gone_not_exists: "map_of (nodes W) p = None \<Longrightarrow> \<not> path_exists W p"
  by (simp add: path_exists_def stat_node_def resolve.simps)

text \<open>
  Claim C1. Let \<open>file_path\<close> name, directly or through symbolic links, the regular file \<open>q\<close>
  of \<open>S\<close> bytes (\<open>S\<close> is the length of its content \<open>c\<close>). Whenever \<open>clear_method\<close> returns
  \<open>True\<close>, the path no longer exists afterwards, and the writes the call added to the raw
  write stream are exactly \<open>ceil(S / 65536)\<close> block writes, all on the one handle the call
  opened, at the offsets \<open>0, 65536, 2 * 65536, ...\<close>, whose concatenation is \<open>S\<close> zero bytes.
  These writes went to the file: if \<open>file_path\<close> is the file's own name, the unlink released
  the file's blocks holding \<open>S\<close> zero bytes, and released nothing else; if \<open>file_path\<close> is a
  symbolic link, the link is what was removed, and the file it pointed to stays behind
  with \<open>S\<close> zero bytes as its content. This holds for every fault schedule and every
  callback.
\<close>

theorem clear_method_correct:
  assumes run: "clear_method file_path cb W = (Inr True, W')"
      and target: "stat_node W file_path = Some (q, File r w c)"
  shows "\<not> path_exists W' file_path \<and>
         (\<exists>ws. writes W' = writes W @ ws \<and>
               length ws = (length c + 65535) div 65536 \<and>
               concat (map (\<lambda>w. snd (snd w)) ws) = replicate (length c) 0 \<and>
               map (\<lambda>w. fst (snd w)) ws = map (\<lambda>i. i * 65536) [0..<length ws] \<and>
               list_all (\<lambda>w. fst w = opens W) ws) \<and>
         (if q = file_path
          then released W' = released W @ [(file_path, replicate (length c) 0)]
          else released W' = released W \<and>
               map_of (nodes W') q = Some (File r w (replicate (length c) 0)))"
proof -
  from run have body: "clear_body file_path cb W = (Inr True, W')"
    unfolding clear_method_def
    by (cases rule: io_except_elim) (simp_all add: io_return_def)
  then obtain n W1 f W2 f1 W3 W4 W5 where
    st: "st_size file_path W = (Inr n, W1)" and
    op: "open_rw file_path W1 = (Inr f, W2)" and
    lp: "clear_loop cb n f 0 W2 = (Inr f1, W3)" and
    fl: "flush f1 W3 = (Inr (), W4)" and
    fs: "fsync f1 W4 = (Inr (), W5)" and
    ul: "unlink file_path W5 = (Inr (), W')"
    by (auto simp: clear_body_def io_return_def split: if_splits dest!: io_bind_Inr)
  from st_size_Inr [OF st] target have n: "n = length c"
    and w1: "writes W1 = writes W" "opens W1 = opens W" "nodes W1 = nodes W"
      "released W1 = released W"
    by (auto simp: node_size_def)
  from open_rw_Inr [OF op] target w1(3) have f: "hid f = opens W" "hpos f = 0" "hpath f = q"
    and w2: "writes W2 = writes W" "nodes W2 = nodes W" "released W2 = released W"
    using w1 by (auto simp: stat_node_def)
  have q: "map_of (nodes W2) (hpath f) = Some (File r w (replicate 0 0 @ c))"
    using resolve_map_of [OF target [unfolded stat_node_def]] w2(2) f(3) by simp
  have len: "length c = length c - 0" by simp
  have "(\<exists>ws. writes W3 = writes W2 @ ws \<and> zero_stream (hid f) 0 (length c - 0) ws) \<and>
        map_of (nodes W3) (hpath f) = Some (File r w (replicate (length c) 0)) \<and>
        (\<forall>p. p \<noteq> hpath f \<longrightarrow> map_of (nodes W3) p = map_of (nodes W2) p) \<and>
        released W3 = released W2"
    by (rule clear_loop_stream [OF lp [unfolded n] le0 f(2) q len])
  then obtain ws where
    ws: "writes W3 = writes W @ ws" "zero_stream (opens W) 0 (length c) ws"
    and z: "map_of (nodes W3) q = Some (File r w (replicate (length c) 0))"
    and oth: "\<And>p. p \<noteq> q \<Longrightarrow> map_of (nodes W3) p = map_of (nodes W) p"
    and rel: "released W3 = released W"
    unfolding f(1) f(3) w2 by auto
  from fl fs have w5: "writes W5 = writes W3" "nodes W5 = nodes W3" "released W5 = released W3"
    by (auto simp: flush_def fsync_def dest!: syscall_frame)
  from unlink_Inr [OF ul] have gone: "map_of (nodes W') file_path = None"
    and w': "writes W' = writes W5" by simp_all
  note ur = unlink_released [OF ul]
  have "writes W' = writes W @ ws" using w' w5 ws(1) by simp
  moreover have "length ws = (length c + 65535) div 65536"
    using ws(2) by (simp add: zero_stream_def blocks_def BLOCK_SIZE_def)
  moreover have "concat (map (\<lambda>w. snd (snd w)) ws) = replicate (length c) 0"
    using ws(2) by (simp add: zero_stream_def)
  moreover have "map (\<lambda>w. fst (snd w)) ws = map (\<lambda>i. i * 65536) [0..<length ws]"
    using ws(2) by (simp add: zero_stream_def BLOCK_SIZE_def)
  moreover have "list_all (\<lambda>w. fst w = opens W) ws"
    using ws(2) by (simp add: zero_stream_def)
  ultimately have stream: "\<exists>ws. writes W' = writes W @ ws \<and>
               length ws = (length c + 65535) div 65536 \<and>
               concat (map (\<lambda>w. snd (snd w)) ws) = replicate (length c) 0 \<and>
               map (\<lambda>w. fst (snd w)) ws = map (\<lambda>i. i * 65536) [0..<length ws] \<and>
               list_all (\<lambda>w. fst w = opens W) ws"
    by blast
  have medium: "if q = file_path
          then released W' = released W @ [(file_path, replicate (length c) 0)]
          else released W' = released W \<and>
               map_of (nodes W') q = Some (File r w (replicate (length c) 0))"
  proof (cases "q = file_path")
    case True
    with z w5(2) have "map_of (nodes W5) file_path = Some (File r w (replicate (length c) 0))"
      by simp
    with ur True rel w5(3) show ?thesis by simp
  next
    case False
    from resolve_link [OF target [unfolded stat_node_def] False]
    obtain t where "map_of (nodes W) file_path = Some (Symlink t)" ..
    with oth [of file_path] False w5(2)
    have "map_of (nodes W5) file_path = Some (Symlink t)" by simp
    moreover have "map_of (nodes W') q = map_of (nodes W5) q" using ur False by simp
    ultimately show ?thesis using ur False rel w5 z by simp
  qed
  from gone_not_exists [OF gone] stream medium show ?thesis by (intro conjI)
qed

lemma demo_clear:
  "clear_method ''/data/a.txt'' None demo_world =
     (Inr True, demo_world\<lparr>nodes := [(''/data'', Dir True True)], opens := 1,
        writes := [(0, 0, [0, 0, 0])], released := [(''/data/a.txt'', [0, 0, 0])]\<rparr>)"
  by (simp add: demo_eval)

text \<open>
  The hypotheses are met by the three-byte file of the demo world: one write of three
  zero bytes at offset 0, the blocks released by the unlink hold three zero bytes, and the
  file is gone afterwards.
\<close>

theorem clear_method_correct_witness:
  "fst (clear_method ''/data/a.txt'' None demo_world) = Inr True \<and>
   stat_node demo_world ''/data/a.txt'' = Some (''/data/a.txt'', File True True [1, 2, 3]) \<and>
   \<not> path_exists (snd (clear_method ''/data/a.txt'' None demo_world)) ''/data/a.txt'' \<and>
   writes (snd (clear_method ''/data/a.txt'' None demo_world)) = [(0, 0, [0, 0, 0])] \<and>
   released (snd (clear_method ''/data/a.txt'' None demo_world))
     = [(''/data/a.txt'', [0, 0, 0])]"
proof -
  have target: "stat_node demo_world ''/data/a.txt''
                = Some (''/data/a.txt'', File True True [1, 2, 3])"
    by (simp add: demo_world_def fs_defs)
  have "released demo_world = []" by (simp add: demo_world_def)
  with clear_method_correct [OF demo_clear target] target
  show ?thesis unfolding demo_clear fst_conv snd_conv by simp
qed
section \<open>Validator: symbolic links\<close>

lemmas val_defs = validate_path_def validate_permissions_def validate_selection_def
  has_invalid_chars_def access_R_OK_def access_W_OK_def parent_def lower_def lower_char_def
  startswith_def

text \<open>
  Claim C4 says that \<open>validate_path\<close> answers \<open>valid = False\<close>, \<open>type = 'symlink'\<close> for every
  symbolic link. The code asks \<open>is_file()\<close> and \<open>is_dir()\<close> first, and both follow links:
  for the link \<open>/tmp/link\<close> to the readable, writable regular file \<open>/tmp/real.txt\<close> the
  result is \<open>valid = True\<close> with \<open>type = 'file'\<close> and no error.
\<close>

theorem validate_path_accepts_symlink:
  "is_symlink symlink_world ''/tmp/link'' \<and>
   validate_path symlink_world ''/tmp/link'' =
     \<lparr>p_valid = True, p_exists = True, p_accessible = True, p_type = Some ''file'',
      p_errors = []\<rparr>"
  by (simp add: symlink_world_def demo_world_def val_defs fs_defs)

text \<open>
  The same holds for every link that resolves to a readable regular file; the branch
  that refuses symbolic links is reached only by a link to a node that is neither a
  regular file nor a directory.
\<close>

lemma validate_path_symlink_to_file:
  assumes "map_of (nodes W) p = Some (Symlink t)" "\<not> has_invalid_chars p"
      and "stat_node W p = Some (q, File True w c)"
  shows "p_valid (validate_path W p) \<and> p_type (validate_path W p) = Some ''file''"
  using assms by (simp add: validate_path_def path_exists_def is_file_def access_R_OK_def)

lemma resolve_not_symlink: "resolve k ns p = Some (q, n) \<Longrightarrow> n \<noteq> Symlink t"
proof (induction k ns p rule: resolve.induct)
  case (1 k ns p)
  then show ?case
    by (subst (asm) (2) resolve.simps) (auto split: option.splits node.splits if_splits)
qed

lemma symlink_type_only_special:
  assumes "p_type (validate_path W p) = Some ''symlink''"
  shows "\<exists>q r w. stat_node W p = Some (q, Special r w)"
  using assms
  by (auto simp: validate_path_def path_exists_def is_file_def is_dir_def Let_def stat_node_def
           dest: resolve_not_symlink split: if_splits option.splits node.splits)

section \<open>Validator: system files in a selection\<close>

text \<open>
  Claim C9 as stated fails: \<open>/etc/shadow\<close> is on the deny-list, but it is not readable, so
  \<open>validate_path\<close> rejects it and the loop continues before the system-file check: the
  path is reported under \<open>invalid_files\<close>, not under \<open>system_files\<close>.
\<close>

theorem system_file_counterexample:
  "WindowsPlatform_is_system_file ''/etc/shadow'' \<and>
   ''/etc/shadow'' \<notin> set (v_system_files
      (validate_selection etc_world [''/etc/shadow''] (Some WindowsPlatform_is_system_file)))"
  by (simp add: etc_world_def demo_world_def val_defs fs_defs WindowsPlatform_is_system_file_def)


lemma lower_keeps_prefix:
  "startswith p pre \<Longrightarrow> lower pre = pre \<Longrightarrow> startswith (lower p) pre"
  unfolding startswith_def lower_def by (metis take_map)

lemma deny_list_lower:
  "list_ex (startswith p) pres \<Longrightarrow> list_all (\<lambda>pre. lower pre = pre) pres
     \<Longrightarrow> list_ex (startswith (lower p)) pres"
  by (induction pres) (auto intro: lower_keeps_prefix)

lemma WindowsPlatform_lower:
  "WindowsPlatform_is_system_file p \<Longrightarrow> WindowsPlatform_is_system_file (lower p)"
  unfolding WindowsPlatform_is_system_file_def
  by (erule deny_list_lower) (simp add: lower_def lower_char_def)

lemma MacOSPlatform_lower:
  "MacOSPlatform_is_system_file p \<Longrightarrow> MacOSPlatform_is_system_file (lower p)"
  unfolding MacOSPlatform_is_system_file_def
  by (erule deny_list_lower) (simp add: lower_def lower_char_def)

lemma validate_selection_flagged:
  assumes "h (lower p)"
  shows "validate_selection W [p] (Some h) =
     (if p_valid (validate_path W p) then
        \<lparr>v_valid = False, v_total_files = 1, v_valid_files = [], v_invalid_files = [],
         v_system_files = [p],
         v_warnings = [''WARNING: '' @ p @ '' appears to be a system file''],
         v_errors = [show_nat 1 @ '' system file(s) detected - deletion not allowed'',
                     ''No valid files to delete'']\<rparr>
      else
        \<lparr>v_valid = False, v_total_files = 1, v_valid_files = [],
         v_invalid_files = [(p, p_errors (validate_path W p))], v_system_files = [],
         v_warnings = [], v_errors = [''No valid files to delete'']\<rparr>)"
  using assms by (simp add: validate_selection_def Let_def)

text \<open>
  Claim C9, amended. Let \<open>p\<close> be on the deny-list of a platform handler
  (\<open>is_system_file(p)\<close> is true). Then \<open>validate_selection([p], handler)\<close> is never valid and
  \<open>p\<close> is never among \<open>valid_files\<close>, whatever the permission bits are. \<open>p\<close> is listed in
  \<open>system_files\<close> exactly when \<open>validate_path\<close> accepts it (it exists, is a file or a
  directory, is readable and has no control character); otherwise it is listed in
  \<open>invalid_files\<close> with the errors of \<open>validate_path\<close>.
\<close>

theorem validate_selection_system_file:
  assumes "h = WindowsPlatform_is_system_file \<or> h = MacOSPlatform_is_system_file"
      and "h p"
  shows "\<not> v_valid (validate_selection W [p] (Some h)) \<and>
         p \<notin> set (v_valid_files (validate_selection W [p] (Some h))) \<and>
         v_system_files (validate_selection W [p] (Some h))
           = (if p_valid (validate_path W p) then [p] else []) \<and>
         v_invalid_files (validate_selection W [p] (Some h))
           = (if p_valid (validate_path W p) then [] else [(p, p_errors (validate_path W p))])"
proof -
  have "h (lower p)"
    using assms by (auto intro: WindowsPlatform_lower MacOSPlatform_lower)
  then show ?thesis by (simp add: validate_selection_flagged)
qed

text \<open>
  \<open>/etc/passwd\<close> in the \<open>/etc\<close> world: readable, neither writable nor deletable, on the
  deny-list, and reported as a system file.
\<close>

theorem validate_selection_system_file_witness:
  "WindowsPlatform_is_system_file ''/etc/passwd'' \<and>
   p_valid (validate_path etc_world ''/etc/passwd'') \<and>
   \<not> can_delete (validate_permissions etc_world ''/etc/passwd'') \<and>
   \<not> v_valid (validate_selection etc_world [''/etc/passwd''] (Some WindowsPlatform_is_system_file)) \<and>
   ''/etc/passwd'' \<notin> set (v_valid_files
      (validate_selection etc_world [''/etc/passwd''] (Some WindowsPlatform_is_system_file))) \<and>
   v_system_files (validate_selection etc_world [''/etc/passwd''] (Some WindowsPlatform_is_system_file))
     = [''/etc/passwd'']"
proof -
  have sys: "WindowsPlatform_is_system_file ''/etc/passwd''"
    by (simp add: WindowsPlatform_is_system_file_def startswith_def)
  have ok: "p_valid (validate_path etc_world ''/etc/passwd'')"
    by (simp add: etc_world_def demo_world_def val_defs fs_defs)
  have perm: "\<not> can_delete (validate_permissions etc_world ''/etc/passwd'')"
    by (simp add: etc_world_def demo_world_def val_defs fs_defs)
  show ?thesis
    using validate_selection_system_file [OF disjI1 [OF refl] sys, of etc_world] sys ok perm
    by simp
qed


section \<open>CertificateManager: the round trip\<close>

lemmas cert_defs = CertificateManager_def initialize_keys_def datetime_timedelta_def
  generate_wipe_certificate_def verify_certificate_def sign_deletion_log_def
  get_public_key_pem_def get_method_description_def sliced_files_def dict_get_def truthy_def
  generate_certificate_id_def datetime_now_def lift_def open_w_dump_def open_r_load_def
  hex_def hex_digit_def hex_val_def is_space_def upper_char_def

lemma no_certificate: "certificate (CertificateManager C) = None"
  by (simp add: CertificateManager_def initialize_keys_def datetime_timedelta_def Let_def
           split: sum.splits)

lemma no_public_key_pem: "get_public_key_pem C (CertificateManager C) = ''''"
  by (simp add: get_public_key_pem_def no_certificate)



lemma verify_needs_signature:
  assumes "map_of (documents W) cert_path = Some (JObj d)"
      and "dict_get d ''signature'' (JStr '''') = JStr ''''"
  shows "fst (verify_certificate C cert_path W) = Inr False"
  using assms
  by (auto simp: verify_certificate_def open_r_load_def lift_def io_defs Let_def
           split: list.splits)

lemma verify_needs_public_key:
  assumes "map_of (documents W) cert_path = Some (JObj d)"
      and "dict_get d ''public_key'' (JStr '''') = JStr ''''"
  shows "fst (verify_certificate C cert_path W) = Inr False"
  using assms
  by (auto simp: verify_certificate_def open_r_load_def lift_def io_defs Let_def truthy_def
           split: list.splits json.splits sum.splits)

lemma open_w_dump_Inr:
  "open_w_dump p doc W = (Inr u, W1) \<Longrightarrow> map_of (documents W1) p = Some doc"
  by (auto simp: open_w_dump_def io_defs split: list.splits if_splits)

lemma io_except_reraise: "io_except m (\<lambda>e. io_raise (Exception e)) = m"
  by (rule ext) (auto simp: io_except_def io_raise_def split: prod.splits sum.splits raised.splits)

lemma lift_Inr: "lift r W = (Inr x, W1) \<Longrightarrow> r = Inr x \<and> W1 = W"
  by (simp add: lift_def split: sum.splits)

lemma generate_Inr:
  assumes "generate_wipe_certificate C M ops out W = (Inr p, W1)"
  shows "\<exists>cert_data s.
           map_of (documents W1) p
             = Some (JObj (cert_data @ [(''signature'', JStr s),
                                        (''public_key'', JStr (get_public_key_pem C M))])) \<and>
           sign_deletion_log C M (JObj cert_data) = Inr s \<and>
           map_of cert_data ''signature'' = None \<and> map_of cert_data ''public_key'' = None"
  using assms unfolding generate_wipe_certificate_def io_except_reraise
  by (auto simp: Let_def io_return_def split: prod.splits
           dest!: io_bind_Inr lift_Inr open_w_dump_Inr)

lemma generated_unsigned_never_verifies:
  assumes "generate_wipe_certificate C M ops out W = (Inr p, W1)"
      and "\<And>data. sign_deletion_log C M data = Inr []"
  shows "fst (verify_certificate C p W1) = Inr False"
proof -
  from generate_Inr [OF assms(1)] assms(2) obtain cert_data where
    doc: "map_of (documents W1) p
            = Some (JObj (cert_data @ [(''signature'', JStr []),
                                       (''public_key'', JStr (get_public_key_pem C M))]))"
    and no: "map_of cert_data ''signature'' = None"
    by auto
  show ?thesis
    by (rule verify_needs_signature [OF doc]) (simp add: dict_get_def no map_add_def)
qed

lemma generated_by_manager_never_verifies:
  assumes "generate_wipe_certificate C (CertificateManager C) ops out W = (Inr p, W1)"
  shows "fst (verify_certificate C p W1) = Inr False"
proof -
  from generate_Inr [OF assms] obtain cert_data s where
    doc: "map_of (documents W1) p
            = Some (JObj (cert_data @ [(''signature'', JStr s), (''public_key'', JStr [])]))"
    and no: "map_of cert_data ''signature'' = None" "map_of cert_data ''public_key'' = None"
    by (auto simp: no_public_key_pem)
  show ?thesis
    by (rule verify_needs_public_key [OF doc]) (simp add: dict_get_def no map_add_def)
qed

text \<open>Evaluation of the model on the demo inputs.\<close>

lemma show_nat_digit: "n < 10 \<Longrightarrow> show_nat n = [digit_char n]"
  by (subst show_nat.simps) simp

lemmas toy_defs = toy_crypto_def toy_dumps_def demo_batch_def demo_world_def

lemma demo_generate_fst:
  "fst (generate_wipe_certificate toy_crypto (CertificateManager toy_crypto) demo_batch
          (Some ''cert.json'') demo_world) = Inr ''cert.json''"
  by (simp add: cert_defs toy_defs io_defs is_dir_def stat_node_def resolve.simps Let_def
        show_nat_digit digit_char_def)

text \<open>
  Claim C3 says that \<open>verify_certificate\<close> accepts what \<open>generate_wipe_certificate\<close>
  produced. On the code it does not: \<open>_initialize_keys\<close> raises at \<open>datetime.timedelta\<close>
  after the private key is stored and before the certificate is, so every manager has
  \<open>certificate = None\<close>, every generated certificate carries the empty string as
  \<open>public_key\<close>, and \<open>verify_certificate\<close> answers \<open>False\<close> at its check for a missing
  signature or public key. Here: the certificate of the demo batch is written to
  \<open>cert.json\<close> and verification of that file returns \<open>False\<close>.
\<close>

theorem certificate_round_trip_fails:
  "fst (generate_wipe_certificate toy_crypto (CertificateManager toy_crypto) demo_batch
          (Some ''cert.json'') demo_world) = Inr ''cert.json'' \<and>
   fst (verify_certificate toy_crypto ''cert.json''
          (snd (generate_wipe_certificate toy_crypto (CertificateManager toy_crypto) demo_batch
                  (Some ''cert.json'') demo_world))) = Inr False"
proof -
  let ?run = "generate_wipe_certificate toy_crypto (CertificateManager toy_crypto) demo_batch
                (Some ''cert.json'') demo_world"
  have "?run = (Inr ''cert.json'', snd ?run)"
    using demo_generate_fst by (metis prod.collapse)
  from generated_by_manager_never_verifies [OF this] demo_generate_fst
  show ?thesis by simp
qed

text \<open>
  With a manager that does hold the certificate of its key, the same round trip
  succeeds: the failure above is the missing public key, not the serialisation.
\<close>

lemma repaired_manager_round_trip:
  "fst (verify_certificate toy_crypto ''cert.json''
          (snd (generate_wipe_certificate toy_crypto \<lparr>private_key = Some 7, certificate = Some 7\<rparr>
                  demo_batch (Some ''cert.json'') demo_world))) = Inr True"
  by (simp add: cert_defs toy_defs io_defs is_dir_def stat_node_def resolve.simps Let_def
        show_nat_digit digit_char_def)

section \<open>CertificateManager: signing failures\<close>

text \<open>
  Claim C10. \<open>sign_deletion_log\<close> always returns a string and never raises; without a
  private key, or when the signing primitive fails, the string is empty.
  \<open>verify_certificate\<close> returns \<open>False\<close> for every certificate file whose \<open>signature\<close> is
  missing or empty, and so for every certificate that \<open>generate_wipe_certificate\<close> wrote
  after a signing failure.
\<close>

theorem sign_failure_never_verifies:
  "(\<exists>s. sign_deletion_log C M data = Inr s) \<and>
   (private_key M = None \<longrightarrow> sign_deletion_log C M data = Inr []) \<and>
   (\<forall>k e. private_key M = Some k \<and> rsa_sign C k (dumps_sorted C data) = Inl e
      \<longrightarrow> sign_deletion_log C M data = Inr []) \<and>
   (\<forall>d. map_of (documents W) cert_path = Some (JObj d) \<and>
        dict_get d ''signature'' (JStr []) = JStr []
      \<longrightarrow> fst (verify_certificate C cert_path W) = Inr False) \<and>
   (\<forall>ops out W0 p. private_key M = None \<and>
        generate_wipe_certificate C M ops out W0 = (Inr p, W)
      \<longrightarrow> fst (verify_certificate C p W) = Inr False)"
proof (intro conjI allI impI)
  show "\<exists>s. sign_deletion_log C M data = Inr s"
    by (simp add: sign_deletion_log_def split: option.splits sum.splits)
next
  assume "private_key M = None"
  then show "sign_deletion_log C M data = Inr []"
    by (simp add: sign_deletion_log_def)
next
  fix k e
  assume "private_key M = Some k \<and> rsa_sign C k (dumps_sorted C data) = Inl e"
  then show "sign_deletion_log C M data = Inr []"
    by (simp add: sign_deletion_log_def)
next
  fix d
  assume "map_of (documents W) cert_path = Some (JObj d) \<and>
          dict_get d ''signature'' (JStr []) = JStr []"
  then show "fst (verify_certificate C cert_path W) = Inr False"
    by (auto intro: verify_needs_signature)
next
  fix ops out W0 p
  assume a: "private_key M = None \<and> generate_wipe_certificate C M ops out W0 = (Inr p, W)"
  then have "\<And>data. sign_deletion_log C M data = Inr []"
    by (simp add: sign_deletion_log_def)
  with a show "fst (verify_certificate C p W) = Inr False"
    by (auto intro: generated_unsigned_never_verifies)
qed

text \<open>The key-less manager on the demo batch: an empty signature, and no verification.\<close>

lemma keyless_generate:
  "fst (generate_wipe_certificate toy_crypto keyless demo_batch (Some ''cert.json'') demo_world)
     = Inr ''cert.json''"
  by (simp add: cert_defs toy_defs io_defs is_dir_def stat_node_def resolve.simps Let_def
        show_nat_digit digit_char_def keyless_def)

theorem sign_failure_never_verifies_witness:
  "private_key keyless = None \<and>
   sign_deletion_log toy_crypto keyless (JObj demo_batch) = Inr [] \<and>
   fst (generate_wipe_certificate toy_crypto keyless demo_batch (Some ''cert.json'') demo_world)
     = Inr ''cert.json'' \<and>
   fst (verify_certificate toy_crypto ''cert.json''
          (snd (generate_wipe_certificate toy_crypto keyless demo_batch (Some ''cert.json'')
                  demo_world))) = Inr False"
proof -
  let ?run = "generate_wipe_certificate toy_crypto keyless demo_batch (Some ''cert.json'')
                demo_world"
  have k: "private_key keyless = None" by (simp add: keyless_def)
  have run: "?run = (Inr ''cert.json'', snd ?run)"
    using keyless_generate by (metis prod.collapse)
  from sign_failure_never_verifies [of toy_crypto keyless "JObj demo_batch" "snd ?run" "''cert.json''"]
  show ?thesis using k run keyless_generate by blast
qed


section \<open>Purge: verification does not gate deletion\<close>

lemma unlink_raises: "unlink p W = (Inl b, W1) \<Longrightarrow> \<exists>e. b = Exception e"
  by (auto simp: unlink_def io_bind_def split: prod.splits sum.splits option.splits node.splits
           dest: syscall_raises)

text \<open>
  Claim C7. Once all overwrite passes of \<open>purge_method\<close> have completed, the outcome of the
  sampling verification is not looked at: whatever \<open>_verify_overwrite\<close> returns (in
  particular \<open>False\<close>), the next step is the \<open>unlink\<close>, and \<open>purge_method\<close> returns \<open>True\<close>
  with the path gone as soon as that \<open>unlink\<close> itself succeeds.
\<close>

theorem purge_unlinks_after_failed_verification:
  assumes "path_exists W file_path"
      and "st_size file_path W = (Inr S, W1)"
      and "purge_passes file_path S cb passes 1 W1 = (Inr True, W2)"
      and "verify_overwrite file_path W2 = (Inr verified, W3)"
  shows "purge_method file_path passes cb W =
           (case unlink file_path W3 of
              (Inl e, W4) \<Rightarrow> (Inr False, W4)
            | (Inr u, W4) \<Rightarrow> (Inr True, W4)) \<and>
         (\<forall>W4. unlink file_path W3 = (Inr (), W4) \<longrightarrow>
            purge_method file_path passes cb W = (Inr True, W4) \<and> \<not> path_exists W4 file_path)"
proof -
  have run: "purge_method file_path passes cb W =
           (case unlink file_path W3 of
              (Inl e, W4) \<Rightarrow> (Inr False, W4)
            | (Inr u, W4) \<Rightarrow> (Inr True, W4))"
    using assms
    by (auto simp: purge_method_def purge_body_def io_except_def io_bind_def io_return_def
             split: prod.splits sum.splits dest: unlink_raises)
  moreover have "\<not> path_exists W4 file_path" if "unlink file_path W3 = (Inr (), W4)" for W4
    using unlink_Inr [OF that] by (simp add: gone_not_exists)
  ultimately show ?thesis by (auto split: prod.splits)
qed

text \<open>
  In the world whose fault hits the verification step, three passes complete,
  verification fails, and the purge still returns \<open>True\<close> with the file unlinked.
\<close>

theorem purge_unlinks_after_failed_verification_witness:
  "path_exists verify_fault_world ''/data/a.txt'' \<and>
   fst (purge_passes ''/data/a.txt'' 3 None 3 1
          (snd (st_size ''/data/a.txt'' verify_fault_world))) = Inr True \<and>
   fst (verify_overwrite ''/data/a.txt''
          (snd (purge_passes ''/data/a.txt'' 3 None 3 1
                  (snd (st_size ''/data/a.txt'' verify_fault_world))))) = Inr False \<and>
   fst (purge_method ''/data/a.txt'' 3 None verify_fault_world) = Inr True \<and>
   \<not> path_exists (snd (purge_method ''/data/a.txt'' 3 None verify_fault_world)) ''/data/a.txt''"
proof -
  let ?p = "''/data/a.txt''"
  let ?W1 = "snd (st_size ?p verify_fault_world)"
  let ?W2 = "snd (purge_passes ?p 3 None 3 1 ?W1)"
  let ?W3 = "snd (verify_overwrite ?p ?W2)"
  let ?W4 = "snd (unlink ?p ?W3)"
  have h1: "path_exists verify_fault_world ?p"
    by (simp add: verify_fault_world_def demo_eval)
  have h2: "st_size ?p verify_fault_world = (Inr 3, ?W1)"
    by (simp add: prod_eq_iff verify_fault_world_def demo_eval)
  have f3: "fst (purge_passes ?p 3 None 3 1 ?W1) = Inr True"
    by (simp add: verify_fault_world_def demo_eval)
  have f4: "fst (verify_overwrite ?p ?W2) = Inr False"
    by (simp add: verify_fault_world_def demo_eval)
  have f5: "fst (unlink ?p ?W3) = Inr ()"
    by (simp add: verify_fault_world_def demo_eval)
  have h3: "purge_passes ?p 3 None 3 1 ?W1 = (Inr True, ?W2)"
    using f3 by (metis prod.collapse)
  have h4: "verify_overwrite ?p ?W2 = (Inr False, ?W3)"
    using f4 by (metis prod.collapse)
  have h5: "unlink ?p ?W3 = (Inr (), ?W4)"
    using f5 by (metis prod.collapse)
  from purge_unlinks_after_failed_verification [OF h1 h2 h3 h4] h5
  have "purge_method ?p 3 None verify_fault_world = (Inr True, ?W4) \<and>
        \<not> path_exists ?W4 ?p"
    by blast
  then have "fst (purge_method ?p 3 None verify_fault_world) = Inr True"
    and "\<not> path_exists (snd (purge_method ?p 3 None verify_fault_world)) ?p"
    by simp_all
  with h1 f3 f4 show ?thesis by (intro conjI)
qed


section \<open>Which core operations can raise\<close>

subsection \<open>What a computation can raise\<close>

lemma raises_onlyI: "(\<And>W b W1. m W = (Inl b, W1) \<Longrightarrow> P b) \<Longrightarrow> raises_only P m"
  by (auto simp: raises_only_def)

lemma raises_onlyD: "raises_only P m \<Longrightarrow> m W = (Inl b, W1) \<Longrightarrow> P b"
  by (auto simp: raises_only_def)

lemma raises_only_mono: "raises_only P m \<Longrightarrow> (\<And>b. P b \<Longrightarrow> Q b) \<Longrightarrow> raises_only Q m"
  by (auto simp: raises_only_def)

lemma raises_only_return: "raises_only P (io_return x)"
  by (simp add: raises_only_def io_return_def)

lemma raises_only_raise: "P b \<Longrightarrow> raises_only P (io_raise b)"
  by (simp add: raises_only_def io_raise_def)

lemma raises_only_bind:
  "raises_only P m \<Longrightarrow> (\<And>x. raises_only P (f x)) \<Longrightarrow> raises_only P (io_bind m f)"
  unfolding raises_only_def io_bind_def
  by (auto split: prod.splits sum.splits)

lemma raises_only_except:
  assumes "raises_only Q m" "\<And>e. raises_only P (h e)"
      and "\<And>b. Q b \<Longrightarrow> \<not> is_Exception b \<Longrightarrow> P b"
  shows "raises_only P (io_except m h)"
proof (rule raises_onlyI)
  fix W b W1
  assume "io_except m h W = (Inl b, W1)"
  then show "P b"
  proof (cases rule: io_except_elim)
    case (handled e W0)
    then show ?thesis using assms(2) by (auto dest: raises_onlyD)
  next
    case (escaped b')
    then have "\<not> is_Exception b" by (cases b) auto
    with escaped assms(1,3) show ?thesis by (auto dest: raises_onlyD)
  qed simp
qed

lemma raises_only_lift: "raises_only is_Exception (lift r)"
  by (auto simp: raises_only_def lift_def split: sum.splits)

lemma raises_only_syscall: "raises_only is_Exception syscall"
  by (auto simp: raises_only_def dest: syscall_raises)

lemma after_syscall:
  "(\<And>W b W1. k W = (Inl b, W1) \<Longrightarrow> is_Exception b)
     \<Longrightarrow> raises_only is_Exception (io_bind syscall (\<lambda>u. k))"
  by (intro raises_only_bind raises_only_syscall raises_onlyI)

lemma raises_only_st_size: "raises_only is_Exception (st_size p)"
  unfolding st_size_def by (rule after_syscall) (auto split: option.splits)

lemma raises_only_open_rw: "raises_only is_Exception (open_rw p)"
  unfolding open_rw_def by (rule after_syscall) (auto split: option.splits node.splits if_splits)

lemma raises_only_open_rb: "raises_only is_Exception (open_rb p)"
  unfolding open_rb_def by (rule after_syscall) (auto split: option.splits node.splits if_splits)

lemma raises_only_file_write: "raises_only is_Exception (file_write f bs)"
  unfolding file_write_def by (rule after_syscall) auto

lemma raises_only_file_read: "raises_only is_Exception (file_read f n)"
  unfolding file_read_def by (rule after_syscall) (auto simp: Let_def)

lemma raises_only_seek_set: "raises_only is_Exception (seek_set f n)"
  by (auto simp: raises_only_def seek_set_def io_return_def)

lemma raises_only_seek_end: "raises_only is_Exception (seek_end f n)"
  by (auto simp: raises_only_def seek_end_def Let_def split: if_splits)

lemma raises_only_flush: "raises_only is_Exception (flush f)"
  unfolding flush_def by (rule raises_only_syscall)

lemma raises_only_fsync: "raises_only is_Exception (fsync f)"
  unfolding fsync_def by (rule raises_only_syscall)

lemma raises_only_unlink: "raises_only is_Exception (unlink p)"
  unfolding unlink_def by (rule after_syscall) (auto split: option.splits node.splits)

lemma raises_only_token_bytes: "raises_only P (token_bytes n)"
  by (simp add: raises_only_def token_bytes_def)

lemma raises_only_rglob: "raises_only is_Exception (rglob p)"
  unfolding rglob_def by (rule after_syscall) auto

lemma raises_only_iterdir: "raises_only is_Exception (iterdir p)"
  unfolding iterdir_def by (rule after_syscall) (auto split: if_splits)

lemma raises_only_rmdir: "raises_only is_Exception (rmdir p)"
  unfolding rmdir_def by (rule after_syscall) (auto split: option.splits node.splits if_splits)

lemma raises_only_open_w_dump: "raises_only is_Exception (open_w_dump p doc)"
  unfolding open_w_dump_def by (rule after_syscall) (auto split: if_splits)

lemma raises_only_open_r_load: "raises_only is_Exception (open_r_load p)"
  unfolding open_r_load_def by (rule after_syscall) (auto split: option.splits)

lemma raises_only_gen_data: "raises_only P (gen_data pat n)"
  by (auto simp: gen_data_def raises_only_token_bytes raises_only_return split: option.splits)

lemma raises_only_call_progress: "raises_only (from_callback cb) (call_progress cb v)"
  by (auto simp: raises_only_def call_progress_def from_callback_def split: option.splits)

lemmas raises_only_prims = raises_only_return raises_only_st_size raises_only_open_rw
  raises_only_open_rb raises_only_file_write raises_only_file_read raises_only_seek_set
  raises_only_seek_end raises_only_flush raises_only_fsync raises_only_unlink
  raises_only_rglob raises_only_iterdir raises_only_rmdir raises_only_open_w_dump
  raises_only_open_r_load raises_only_lift raises_only_syscall


subsection \<open>The overwrite loops\<close>

lemma may_raise_Exception: "is_Exception b \<Longrightarrow> may_raise cb b"
  by (simp add: may_raise_def)

lemma may_raise_callback: "from_callback cb b \<Longrightarrow> may_raise cb b"
  by (simp add: may_raise_def)

lemma escapes_may_raise: "escapes cb b \<Longrightarrow> may_raise cb b"
  by (simp add: may_raise_def escapes_def)

lemma may_raise_escapes: "may_raise cb b \<Longrightarrow> \<not> is_Exception b \<Longrightarrow> escapes cb b"
  by (simp add: may_raise_def escapes_def)

lemma raises_only_prim: "raises_only is_Exception m \<Longrightarrow> raises_only (may_raise cb) m"
  by (erule raises_only_mono) (rule may_raise_Exception)

lemma clear_loop_raises:
  "clear_loop cb S f bw W = (Inl b, W1) \<Longrightarrow> may_raise cb b"
proof (induction cb S f bw W rule: clear_loop.induct)
  case (1 cb S f bw W)
  show ?case
  proof (cases "bw < S")
    case False
    with "1.prems" show ?thesis by (simp add: clear_loop_done)
  next
    case True
    from "1.prems" True show ?thesis
    proof (cases rule: clear_loop_elim)
      case (write_fails e)
      then show ?thesis
        using raises_onlyD [OF raises_only_file_write] by (auto intro: may_raise_Exception)
    next
      case (callback_fails f1 W' e)
      then show ?thesis
        using raises_onlyD [OF raises_only_call_progress] by (auto intro: may_raise_callback)
    next
      case (continues f1 W' W'')
      show ?thesis
        by (rule "1.IH" [OF True refl continues(1) [symmetric] refl
                          continues(2) [symmetric] refl continues(3)])
    qed
  qed
qed

lemma gen_data_Inr:
  "\<exists>bs W0. gen_data pat n W = (Inr bs, W0) \<and> obs W0 = obs W \<and> writes W0 = writes W \<and>
            opens W0 = opens W \<and> entropy W0 = entropy W \<and> faults W0 = faults W \<and>
            nodes W0 = nodes W \<and> released W0 = released W"
  by (auto simp: gen_data_def token_bytes_def io_return_def obs_def split: option.splits)

lemma overwrite_loop_elim:
  assumes "overwrite_loop cb S pat p n f bw W = (r, W')" "bw < S"
  obtains (write_fails) bs W0 e where
      "gen_data pat (min BLOCK_SIZE (S - bw)) W = (Inr bs, W0)"
      "file_write f bs W0 = (Inl e, W')" "r = Inl e"
  | (callback_fails) bs W0 f1 W1 e where
      "gen_data pat (min BLOCK_SIZE (S - bw)) W = (Inr bs, W0)"
      "file_write f bs W0 = (Inr f1, W1)"
      "call_progress cb
         (pass_percent p n (real (bw + min BLOCK_SIZE (S - bw)) / real S)) W1 = (Inl e, W')"
      "r = Inl e"
  | (continues) bs W0 f1 W1 W2 where
      "gen_data pat (min BLOCK_SIZE (S - bw)) W = (Inr bs, W0)"
      "file_write f bs W0 = (Inr f1, W1)"
      "call_progress cb
         (pass_percent p n (real (bw + min BLOCK_SIZE (S - bw)) / real S)) W1 = (Inr (), W2)"
      "overwrite_loop cb S pat p n f1 (bw + min BLOCK_SIZE (S - bw)) W2 = (r, W')"
proof -
  obtain bs W0 where g: "gen_data pat (min BLOCK_SIZE (S - bw)) W = (Inr bs, W0)"
    using gen_data_Inr by blast
  show thesis
    using assms g write_fails [OF g] callback_fails [OF g] continues [OF g]
    by (subst (asm) overwrite_loop.simps)
       (auto simp: Let_def pass_percent_def split: prod.splits sum.splits)
qed

lemma overwrite_loop_raises:
  "overwrite_loop cb S pat p n f bw W = (Inl b, W1) \<Longrightarrow> may_raise cb b"
proof (induction cb S pat p n f bw W rule: overwrite_loop.induct)
  case (1 cb S pat p n f bw W)
  show ?case
  proof (cases "bw < S")
    case False
    with "1.prems" show ?thesis by (simp add: overwrite_loop_done)
  next
    case True
    from "1.prems" True show ?thesis
    proof (cases rule: overwrite_loop_elim)
      case (write_fails bs W0 e)
      then show ?thesis
        using raises_onlyD [OF raises_only_file_write] by (auto intro: may_raise_Exception)
    next
      case (callback_fails bs W0 f1 W' e)
      then show ?thesis
        using raises_onlyD [OF raises_only_call_progress] by (auto intro: may_raise_callback)
    next
      case (continues bs W0 f1 W' W'')
      show ?thesis
        by (rule "1.IH" [OF True refl continues(1) [symmetric] refl
                          continues(2) [symmetric] refl
                          continues(3) [unfolded pass_percent_def, symmetric] refl
                          continues(4)])
    qed
  qed
qed

lemma raises_only_clear_loop: "raises_only (may_raise cb) (clear_loop cb S f bw)"
  by (rule raises_onlyI) (rule clear_loop_raises)

lemma raises_only_overwrite_loop:
  "raises_only (may_raise cb) (overwrite_loop cb S pat p n f bw)"
  by (rule raises_onlyI) (rule overwrite_loop_raises)

lemmas may_raise_prims = raises_only_prims [THEN raises_only_prim]

lemma raises_only_clear_body: "raises_only (may_raise cb) (clear_body p cb)"
proof (rule raises_onlyI)
  fix W b W1
  assume run: "clear_body p cb W = (Inl b, W1)"
  have "raises_only (may_raise cb)
          (io_bind (st_size p) (\<lambda>file_size.
           io_bind (open_rw p) (\<lambda>f.
           io_bind (clear_loop cb file_size f 0) (\<lambda>f1.
           io_bind (flush f1) (\<lambda>u.
           io_bind (fsync f1) (\<lambda>u.
           io_bind (unlink p) (\<lambda>u.
           io_return True)))))))"
    by (intro raises_only_bind raises_only_clear_loop raises_only_return
              raises_only_st_size [THEN raises_only_prim]
              raises_only_open_rw [THEN raises_only_prim]
              raises_only_flush [THEN raises_only_prim]
              raises_only_fsync [THEN raises_only_prim]
              raises_only_unlink [THEN raises_only_prim])
  with run show "may_raise cb b"
    by (auto simp: clear_body_def split: if_splits dest: raises_onlyD)
qed

lemma raises_only_clear_method: "raises_only (escapes cb) (clear_method p cb)"
  unfolding clear_method_def
  by (rule raises_only_except [OF raises_only_clear_body])
     (auto intro: raises_only_return may_raise_escapes)

lemma raises_only_overwrite_pass:
  "raises_only (escapes cb) (overwrite_pass file_path S pat p n cb)"
  unfolding overwrite_pass_def
proof (rule raises_only_except [where Q = "may_raise cb"])
  show "raises_only (may_raise cb)
     (io_bind (open_rw file_path) (\<lambda>f.
      io_bind (overwrite_loop cb S pat p n f 0) (\<lambda>f1.
      io_bind (flush f1) (\<lambda>u. io_bind (fsync f1) (\<lambda>u. io_return True)))))"
    by (intro raises_only_bind raises_only_overwrite_loop raises_only_return
              raises_only_open_rw [THEN raises_only_prim]
              raises_only_flush [THEN raises_only_prim]
              raises_only_fsync [THEN raises_only_prim])
qed (auto intro: raises_only_return may_raise_escapes)


lemma raises_only_if:
  "raises_only P m \<Longrightarrow> raises_only P m' \<Longrightarrow> raises_only P (if c then m else m')"
  by simp

lemma raises_only_case_prod:
  "(\<And>a b. raises_only P (f a b)) \<Longrightarrow> raises_only P (case x of (a, b) \<Rightarrow> f a b)"
  by (cases x) simp

lemma raises_only_handled:
  "raises_only is_Exception m \<Longrightarrow> (\<And>e. raises_only P (h e)) \<Longrightarrow> raises_only P (io_except m h)"
  by (erule raises_only_except) auto

lemma raises_only_verify_overwrite: "raises_only P (verify_overwrite file_path)"
  unfolding verify_overwrite_def
  by (intro raises_only_handled raises_only_bind raises_only_if raises_only_case_prod
            raises_only_prims)

lemma purge_passes_raises:
  "purge_passes file_path S cb n p W = (Inl b, W1) \<Longrightarrow> escapes cb b"
proof (induction file_path S cb n p W rule: purge_passes.induct)
  case (1 file_path S cb n p W)
  show ?case
  proof (cases "p \<le> n")
    case False
    with "1.prems" show ?thesis by (simp add: purge_passes_done)
  next
    case True
    obtain r1 W' where op: "overwrite_pass file_path S (pattern_of p) p n cb W = (r1, W')"
      by (cases "overwrite_pass file_path S (pattern_of p) p n cb W")
    show ?thesis
    proof (cases r1)
      case (Inl e)
      with "1.prems" True op have "e = b" by (simp add: purge_passes_step)
      with op Inl show ?thesis using raises_onlyD [OF raises_only_overwrite_pass] by blast
    next
      case (Inr ok)
      with "1.prems" True op have ok: ok and
        rest: "purge_passes file_path S cb n (Suc p) W' = (Inl b, W1)"
        by (auto simp: purge_passes_step split: if_splits)
      show ?thesis
        using "1.IH" [OF True op [symmetric] Inr _ rest] ok by simp
    qed
  qed
qed

lemma raises_only_purge_passes:
  "raises_only (may_raise cb) (purge_passes file_path S cb n p)"
  by (rule raises_onlyI) (auto dest: purge_passes_raises intro: escapes_may_raise)

lemma raises_only_purge_body: "raises_only (may_raise cb) (purge_body p passes cb)"
proof (rule raises_onlyI)
  fix W b W1
  assume run: "purge_body p passes cb W = (Inl b, W1)"
  have "raises_only (may_raise cb)
          (io_bind (st_size p) (\<lambda>file_size.
           io_bind (purge_passes p file_size cb passes 1) (\<lambda>completed.
           if \<not> completed then io_return False
           else
             io_bind (verify_overwrite p) (\<lambda>verified.
             io_bind (unlink p) (\<lambda>u.
             io_return True)))))"
    by (intro raises_only_bind raises_only_if raises_only_purge_passes raises_only_return
              raises_only_verify_overwrite
              raises_only_st_size [THEN raises_only_prim]
              raises_only_unlink [THEN raises_only_prim])
  with run show "may_raise cb b"
    by (auto simp: purge_body_def split: if_splits dest: raises_onlyD)
qed

lemma raises_only_purge_method: "raises_only (escapes cb) (purge_method p passes cb)"
  unfolding purge_method_def
  by (rule raises_only_except [OF raises_only_purge_body])
     (auto intro: raises_only_return may_raise_escapes)

subsection \<open>wipe\_file\<close>

lemma raises_only_wipe_file_body:
  "raises_only (may_raise cb) (wipe_file_body result file_path method cb)"
proof (rule raises_onlyI)
  fix W b W1
  assume run: "wipe_file_body result file_path method cb W = (Inl b, W1)"
  have "raises_only (may_raise cb)
        (io_bind (st_size file_path) (\<lambda>file_size.
        if method = ''clear'' \<or> method = ''purge'' then
          io_bind (if method = ''clear'' then clear_method file_path cb
                   else purge_method file_path 7 cb) (\<lambda>success W1.
          if success then
            (Inr (result\<lparr>f_success := success, f_verified := Some (verify_wipe W1 file_path)\<rparr>), W1)
          else (Inr (result\<lparr>f_success := success\<rparr>), W1))
        else io_return (result\<lparr>f_error := Some (''Unknown method: '' @ method)\<rparr>)))"
    by (intro raises_only_bind raises_only_if raises_only_return
              raises_only_st_size [THEN raises_only_prim]
              raises_only_clear_method [THEN raises_only_mono]
              raises_only_purge_method [THEN raises_only_mono]
              escapes_may_raise raises_onlyI)
       (auto split: if_splits)
  with run show "may_raise cb b"
    by (auto simp: wipe_file_body_def split: if_splits dest: raises_onlyD)
qed

lemma wipe_file_raises:
  assumes "wipe_file file_path method cb W = (Inl b, W1)"
  shows "escapes cb b"
proof -
  let ?result = "\<lparr>f_file = file_path, f_method = method, f_success = False, f_error = None,
                   f_verified = None, f_start_time = fst (datetime_now W), f_end_time = None,
                   f_duration = None\<rparr>"
  have "raises_only (escapes cb)
          (io_except (wipe_file_body ?result file_path method cb)
             (\<lambda>e. io_return (?result\<lparr>f_error := Some (exn_str e)\<rparr>)))"
    by (rule raises_only_except [OF raises_only_wipe_file_body])
       (auto intro: raises_only_return may_raise_escapes)
  with assms show ?thesis
    by (auto simp: wipe_file_def Let_def split: prod.splits sum.splits dest: raises_onlyD)
qed

lemma wipe_file_no_callback: "\<exists>res. fst (wipe_file file_path method None W) = Inr res"
proof (cases "wipe_file file_path method None W")
  case (Pair r W1)
  then show ?thesis
    by (cases r) (auto dest: wipe_file_raises simp: escapes_def from_callback_def)
qed


subsection \<open>The batch operations\<close>

lemma remove_empty_raises:
  "(\<forall>b W1. remove_empty_dirs depth folder W = (Inl b, W1) \<longrightarrow> is_Exception b)"
  "(\<forall>b W1. remove_empty_items depth items W = (Inl b, W1) \<longrightarrow> is_Exception b)"
proof (induction depth folder W and depth items W
       rule: remove_empty_dirs_remove_empty_items.induct)
  case (1 folder W)
  show ?case by simp
next
  case (2 depth folder W)
  show ?case
  proof (intro allI impI)
    fix b W1
    assume run: "remove_empty_dirs (Suc depth) folder W = (Inl b, W1)"
    obtain r W' where it: "iterdir folder W = (r, W')" by (cases "iterdir folder W")
    show "is_Exception b"
    proof (cases r)
      case (Inl e)
      with run it have "e = b" by simp
      with it Inl show ?thesis using raises_onlyD [OF raises_only_iterdir] by blast
    next
      case (Inr items)
      with run it have "remove_empty_items depth items W' = (Inl b, W1)" by simp
      with "2.IH" [OF it [symmetric] Inr] show ?thesis by blast
    qed
  qed
next
  case (3 depth W)
  show ?case by simp
next
  case (4 depth item items W)
  show ?case
  proof (intro allI impI)
    fix b W1
    assume run: "remove_empty_items depth (item # items) W = (Inl b, W1)"
    show "is_Exception b"
    proof (cases "is_dir W item")
      case False
      with run have "remove_empty_items depth items W = (Inl b, W1)" by simp
      with "4.IH"(3) [OF False] show ?thesis by blast
    next
      case True
      obtain r W' where rd: "remove_empty_dirs depth item W = (r, W')"
        by (cases "remove_empty_dirs depth item W")
      show ?thesis
      proof (cases r)
        case (Inl e)
        with run True rd have "e = b" by simp
        with "4.IH"(1) [OF True] rd Inl show ?thesis by blast
      next
        case (Inr u)
        obtain r2 W'' where rm:
          "io_except (rmdir item)
             (\<lambda>e. if is_OSError e then io_return () else io_raise (Exception e)) W' = (r2, W'')"
          by (cases "io_except (rmdir item)
             (\<lambda>e. if is_OSError e then io_return () else io_raise (Exception e)) W'")
        have safe: "raises_only is_Exception
            (io_except (rmdir item)
               (\<lambda>e. if is_OSError e then io_return () else io_raise (Exception e)))"
          by (intro raises_only_handled raises_only_rmdir raises_only_if raises_only_return
                    raises_only_raise) simp
        show ?thesis
        proof (cases r2)
          case (Inl e)
          with run True rd Inr rm have "e = b" by simp
          with rm Inl safe show ?thesis by (auto dest: raises_onlyD)
        next
          case (Inr u2)
          with run True rd \<open>r = Inr u\<close> rm
          have "remove_empty_items depth items W'' = (Inl b, W1)" by simp
          with "4.IH"(2) [OF True rd [symmetric] \<open>r = Inr u\<close> rm [symmetric] Inr]
          show ?thesis by blast
        qed
      qed
    qed
  qed
qed

lemma raises_only_remove_empty_dirs:
  "raises_only is_Exception (remove_empty_dirs depth folder)"
  by (rule raises_onlyI) (use remove_empty_raises(1) in blast)

lemma folder_loop_raises:
  "folder_loop meth cb n idx files result W = ((Some b, res), W1) \<Longrightarrow> from_callback cb b"
proof (induction meth cb n idx files result W rule: folder_loop.induct)
  case (1 meth cb n idx result W)
  then show ?case by simp
next
  case (2 meth cb n idx file_path rest result W)
  from "2.prems" have nc: "\<not> cancel_requested W" by (auto split: if_splits)
  obtain r W' where cp: "call_progress cb (real idx / real n * 100) W = (r, W')"
    by (cases "call_progress cb (real idx / real n * 100) W")
  show ?case
  proof (cases r)
    case (Inl e)
    with "2.prems" nc cp have "e = b" by simp
    with cp Inl show ?thesis using raises_onlyD [OF raises_only_call_progress] by blast
  next
    case (Inr u)
    obtain r2 W'' where wf: "wipe_file file_path meth None W' = (r2, W'')"
      by (cases "wipe_file file_path meth None W'")
    from wipe_file_no_callback [of file_path meth W'] wf
    obtain file_result where fr: "r2 = Inr file_result" by auto
    from "2.prems" nc cp Inr wf fr
    have rest: "folder_loop meth cb n (Suc idx) rest
                   (if f_success file_result then
                      result\<lparr>d_successful := d_successful result + 1\<rparr>
                    else
                      result\<lparr>d_failed := d_failed result + 1,
                             d_errors := d_errors result
                                         @ [FileError file_path (f_error file_result)]\<rparr>)
                   (poll_signal W'') = ((Some b, res), W1)"
      by simp
    show ?thesis
      by (rule "2.IH" [OF nc cp [symmetric] Inr wf [symmetric] fr rest])
  qed
qed

lemma selection_loop_raises:
  "selection_loop meth cb n idx files result W = ((Some b, res), W1) \<Longrightarrow> from_callback cb b"
proof (induction meth cb n idx files result W rule: selection_loop.induct)
  case (1 meth cb n idx result W)
  then show ?case by simp
next
  case (2 meth cb n idx file_path rest result W)
  from "2.prems" have nc: "\<not> cancel_requested W" by (auto split: if_splits)
  obtain r W' where cp: "call_progress cb (real idx / real n * 100) W = (r, W')"
    by (cases "call_progress cb (real idx / real n * 100) W")
  show ?case
  proof (cases r)
    case (Inl e)
    with "2.prems" nc cp have "e = b" by simp
    with cp Inl show ?thesis using raises_onlyD [OF raises_only_call_progress] by blast
  next
    case (Inr u)
    obtain r2 W'' where wf: "wipe_file file_path meth None W' = (r2, W'')"
      by (cases "wipe_file file_path meth None W'")
    from wipe_file_no_callback [of file_path meth W'] wf
    obtain file_result where fr: "r2 = Inr file_result" by auto
    from "2.prems" nc cp Inr wf fr
    have rest: "selection_loop meth cb n (Suc idx) rest
                   (if f_success file_result then
                      result\<lparr>s_files := s_files result @ [Result file_result],
                             s_successful := s_successful result + 1\<rparr>
                    else
                      result\<lparr>s_files := s_files result @ [Result file_result],
                             s_failed := s_failed result + 1\<rparr>)
                   (poll_signal W'') = ((Some b, res), W1)"
      by simp
    show ?thesis
      by (rule "2.IH" [OF nc cp [symmetric] Inr wf [symmetric] fr rest])
  qed
qed


lemma wipe_folder_body_raises:
  assumes "wipe_folder_body folder_path method recursive cb result W = ((Some b, res), W1)"
  shows "may_raise cb b"
proof -
  from assms have ok: "path_exists W folder_path" "is_dir W folder_path"
    by (auto simp: wipe_folder_body_def split: if_splits)
  obtain r W' where en:
    "(if recursive then rglob folder_path else iterdir folder_path) W = (r, W')"
    by (cases "(if recursive then rglob folder_path else iterdir folder_path) W")
  have safe_en: "raises_only is_Exception (if recursive then rglob folder_path else iterdir folder_path)"
    by (intro raises_only_if raises_only_rglob raises_only_iterdir)
  show ?thesis
  proof (cases r)
    case (Inl e)
    with assms ok en have "e = b" by (simp add: wipe_folder_body_def)
    with en Inl safe_en show ?thesis by (auto dest: raises_onlyD intro: may_raise_Exception)
  next
    case (Inr items)
    define files where "files = filter (is_file W') items"
    obtain ex result2 W2 where fl:
      "folder_loop method cb (length files) 0 files (result\<lparr>d_total_files := length files\<rparr>) W'
         = ((ex, result2), W2)"
      by (cases "folder_loop method cb (length files) 0 files
                   (result\<lparr>d_total_files := length files\<rparr>) W'") auto
    show ?thesis
    proof (cases ex)
      case (Some e)
      with assms ok en Inr fl have "e = b"
        by (simp add: wipe_folder_body_def Let_def files_def)
      with fl Some show ?thesis by (auto dest: folder_loop_raises intro: may_raise_callback)
    next
      case None
      have safe: "raises_only (\<lambda>b. False)
                    (io_except (remove_empty_dirs RECURSION_LIMIT folder_path) (\<lambda>e. io_return ()))"
        by (intro raises_only_handled raises_only_remove_empty_dirs raises_only_return)
      from assms ok en Inr fl None
      have "recursive \<and> (\<exists>W3. io_except (remove_empty_dirs RECURSION_LIMIT folder_path)
                           (\<lambda>e. io_return ()) W2 = (Inl b, W3))"
        by (auto simp: wipe_folder_body_def Let_def files_def
                 split: if_splits prod.splits sum.splits)
      with safe show ?thesis by (auto dest: raises_onlyD)
    qed
  qed
qed

lemma wipe_folder_raises:
  assumes "wipe_folder folder_path method recursive cb W = (Inl b, W1)"
  shows "escapes cb b"
proof -
  from assms obtain result res W' where
    body: "wipe_folder_body folder_path method recursive cb result W' = ((Some b, res), W')
           \<or> (\<exists>W2. wipe_folder_body folder_path method recursive cb result W' = ((Some b, res), W2))"
    and ne: "\<not> is_Exception b"
    by (auto simp: wipe_folder_def Let_def
             split: prod.splits option.splits raised.splits)
  then have "may_raise cb b" by (auto dest: wipe_folder_body_raises)
  with ne show ?thesis by (auto intro: may_raise_escapes)
qed

lemma wipe_selection_raises:
  assumes "wipe_selection (FileList file_list) method cb W = (Inl b, W1)"
  shows "escapes cb b"
proof -
  from assms obtain n result res W' W2 where
    "selection_loop method cb n 0 file_list result W' = ((Some b, res), W2)"
    and ne: "\<not> is_Exception b"
    by (auto simp: wipe_selection_def Let_def
             split: prod.splits option.splits raised.splits)
  then have "from_callback cb b" by (auto dest: selection_loop_raises)
  with ne show ?thesis by (simp add: escapes_def)
qed

lemma wipe_selection_NoLen:
  "fst (wipe_selection NoLen method cb W) = Inl (Exception TypeError)"
  by (simp add: wipe_selection_def datetime_now_def)

lemma verify_certificate_returns: "\<exists>ok. fst (verify_certificate C cert_path W) = Inr ok"
proof -
  have "raises_only (\<lambda>b. False) (verify_certificate C cert_path)"
    unfolding verify_certificate_def
    by (intro raises_only_handled raises_only_bind raises_only_return)
       (auto simp: Let_def split: json.splits
             intro!: raises_only_bind raises_only_lift raises_only_return raises_only_raise
                     raises_only_open_r_load)
  then show ?thesis
    by (cases "verify_certificate C cert_path W"; cases "fst (verify_certificate C cert_path W)")
       (auto dest: raises_onlyD)
qed


text \<open>
  Claim C8 as stated fails for certificate generation: its handler logs and re-raises.
  With the directory \<open>/data\<close> as output path, \<open>open(output_path, 'w')\<close> raises
  \<open>IsADirectoryError\<close> and the caller of \<open>generate_wipe_certificate\<close> receives it.
\<close>

theorem generate_wipe_certificate_raises:
  "fst (generate_wipe_certificate toy_crypto (CertificateManager toy_crypto) demo_batch
          (Some ''/data'') demo_world) = Inl (Exception IsADirectoryError)"
  by (simp add: cert_defs toy_defs io_defs is_dir_def stat_node_def resolve.simps Let_def
        show_nat_digit digit_char_def SYMLOOP_MAX_def)

text \<open>
  Claim C8, amended. \<open>wipe_file\<close>, \<open>wipe_folder\<close> and, when it is given a list,
  \<open>wipe_selection\<close> hand no exception derived from \<open>Exception\<close> to their caller: whatever
  the file system does, they return their result. Their handlers are \<open>except Exception\<close>,
  so what does reach the caller is an exception outside that hierarchy
  (\<open>KeyboardInterrupt\<close>, \<open>SystemExit\<close>) raised while the progress callback runs.
  \<open>wipe_selection\<close> evaluates \<open>len(file_list)\<close> before its \<open>try\<close>: given an argument without
  \<open>len()\<close> it raises \<open>TypeError\<close>. \<open>verify_certificate\<close> returns a boolean and
  \<open>sign_deletion_log\<close> a string in every case.
\<close>

theorem core_operations_contain_exceptions:
  "(\<forall>b W1. wipe_file file_path method cb W = (Inl b, W1)
      \<longrightarrow> \<not> is_Exception b \<and> from_callback cb b) \<and>
   (\<forall>b W1. wipe_folder folder_path method recursive cb W = (Inl b, W1)
      \<longrightarrow> \<not> is_Exception b \<and> from_callback cb b) \<and>
   (\<forall>b W1. wipe_selection (FileList file_list) method cb W = (Inl b, W1)
      \<longrightarrow> \<not> is_Exception b \<and> from_callback cb b) \<and>
   fst (wipe_selection NoLen method cb W) = Inl (Exception TypeError) \<and>
   (\<exists>ok. fst (verify_certificate C cert_path W) = Inr ok) \<and>
   (\<exists>s. sign_deletion_log C M data = Inr s)"
proof -
  have "\<exists>s. sign_deletion_log C M data = Inr s"
    by (simp add: sign_deletion_log_def split: option.splits sum.splits)
  then show ?thesis
    using wipe_file_raises [of file_path _ cb W]
      wipe_folder_raises [of folder_path _ recursive cb W]
      wipe_selection_raises [of file_list _ cb W]
      wipe_selection_NoLen [of _ cb W]
      verify_certificate_returns [of C cert_path W]
    unfolding escapes_def by blast
qed

text \<open>
  A callback that is interrupted: the \<open>KeyboardInterrupt\<close> passes through \<open>clear_method\<close>
  and \<open>wipe_file\<close>, and through the batch loops of \<open>wipe_folder\<close> and \<open>wipe_selection\<close>.
\<close>

lemmas engine_defs = wipe_file_def wipe_file_body_def wipe_folder_def wipe_folder_body_def
  wipe_selection_def datetime_now_def rglob_def iterdir_def is_under_def is_child_def
  poll_signal_def emergency_stop_def

lemma interrupted_wipe_file:
  "fst (wipe_file ''/data/a.txt'' ''clear'' interrupted demo_world) = Inl KeyboardInterrupt"
  by (simp add: interrupted_def engine_defs demo_eval)

lemma interrupted_wipe_folder:
  "fst (wipe_folder ''/data'' ''clear'' True interrupted demo_world) = Inl KeyboardInterrupt"
  by (simp add: interrupted_def engine_defs demo_eval)

lemma interrupted_wipe_selection:
  "fst (wipe_selection (FileList [''/data/a.txt'']) ''clear'' interrupted demo_world)
     = Inl KeyboardInterrupt"
  by (simp add: interrupted_def engine_defs demo_eval)

theorem core_operations_contain_exceptions_witness:
  "fst (wipe_file ''/data/a.txt'' ''clear'' interrupted demo_world) = Inl KeyboardInterrupt \<and>
   fst (wipe_folder ''/data'' ''clear'' True interrupted demo_world) = Inl KeyboardInterrupt \<and>
   fst (wipe_selection (FileList [''/data/a.txt'']) ''clear'' interrupted demo_world)
     = Inl KeyboardInterrupt \<and>
   \<not> is_Exception KeyboardInterrupt \<and> from_callback interrupted KeyboardInterrupt \<and>
   fst (wipe_selection NoLen ''clear'' interrupted demo_world) = Inl (Exception TypeError)"
proof -
  let ?file = "wipe_file ''/data/a.txt'' ''clear'' interrupted demo_world"
  let ?folder = "wipe_folder ''/data'' ''clear'' True interrupted demo_world"
  let ?selection = "wipe_selection (FileList [''/data/a.txt'']) ''clear'' interrupted demo_world"
  note all = core_operations_contain_exceptions
    [of "''/data/a.txt''" "''clear''" interrupted demo_world "''/data''" True
        "[''/data/a.txt'']"]
  have 1: "?file = (Inl KeyboardInterrupt, snd ?file)"
    using interrupted_wipe_file by (metis prod.collapse)
  have 2: "?folder = (Inl KeyboardInterrupt, snd ?folder)"
    using interrupted_wipe_folder by (metis prod.collapse)
  have 3: "?selection = (Inl KeyboardInterrupt, snd ?selection)"
    using interrupted_wipe_selection by (metis prod.collapse)
  from all 1 have "\<not> is_Exception KeyboardInterrupt \<and> from_callback interrupted KeyboardInterrupt"
    by blast
  moreover from all 2
  have "\<not> is_Exception KeyboardInterrupt \<and> from_callback interrupted KeyboardInterrupt"
    by blast
  moreover from all 3
  have "\<not> is_Exception KeyboardInterrupt \<and> from_callback interrupted KeyboardInterrupt"
    by blast
  moreover from all
  have "fst (wipe_selection NoLen ''clear'' interrupted demo_world) = Inl (Exception TypeError)"
    by blast
  ultimately show ?thesis
    using interrupted_wipe_file interrupted_wipe_folder interrupted_wipe_selection
    by (intro conjI) simp_all
qed


end
